theory Spec2Isabelle
  imports Complex_Main "HOL-Library.Word" "HOL-Library.Log_Nat"
begin

section \<open>JavaScript values\<close>

text \<open>
  The three variants of the program (the page component \<^verbatim>\<open>captcha-solver.tsx\<close>, the
  browser extension with its content script and popup, and the editor panel with its
  webview script and extension host) are JavaScript. A canvas pixel buffer is a
  \<^verbatim>\<open>Uint8ClampedArray\<close>: a flat sequence of bytes, four per pixel (R, G, B, A). A finite
  JavaScript number is an IEEE 754 double and is modelled by the rational it denotes.
  The luminance of a pixel is computed as the source computes it, every literal,
  product and sum rounded to the nearest double (\<open>to_double\<close> below). The products of
  integer sizes and coordinates with a slider value or a device pixel ratio, and the
  sums and quotients of confidences, are taken exactly.
\<close>

type_synonym u8 = "8 word"

text \<open>\<^verbatim>\<open>Math.round\<close>: the nearest integer, a tie going up.\<close>

definition Math_round :: "rat \<Rightarrow> int" where
  "Math_round x = \<lfloor>x + 1 / 2\<rfloor>"

text \<open>\<^verbatim>\<open>Math.floor\<close>.\<close>

definition Math_floor :: "rat \<Rightarrow> int" where
  "Math_floor x = \<lfloor>x\<rfloor>"

text \<open>Storing an integer into a \<^verbatim>\<open>Uint8ClampedArray\<close> clamps it to 0..255.\<close>

definition uint8_clamp :: "int \<Rightarrow> u8" where
  "uint8_clamp x = word_of_int (max 0 (min 255 x))"

subsection \<open>Rounding to a double\<close>

text \<open>
  \<open>pow2 k\<close> is the power \<open>2\<^sup>k\<close> for an integer \<open>k\<close>, and \<open>binade x\<close>, for a positive \<open>x\<close>, is
  the \<open>k\<close> with \<open>2\<^sup>k \<le> x < 2\<^sup>k\<^sup>+\<^sup>1\<close>: one less than the bit length of the integer part when
  \<open>x \<ge> 1\<close>, and found from the reciprocal otherwise.
\<close>

definition pow2 :: "int \<Rightarrow> rat" where
  "pow2 k = (if 0 \<le> k then 2 ^ nat k else 1 / 2 ^ nat (- k))"

definition binade :: "rat \<Rightarrow> int" where
  "binade x = (if 1 \<le> x then bitlen \<lfloor>x\<rfloor> - 1 else - bitlen (\<lceil>1 / x\<rceil> - 1))"

text \<open>The nearest integer, a tie going to the even one.\<close>

definition round_half_even :: "rat \<Rightarrow> int" where
  "round_half_even x =
     (let f = \<lfloor>x\<rfloor>; d = x - of_int f
      in if d < 1 / 2 then f else if d > 1 / 2 then f + 1 else if even f then f else f + 1)"

text \<open>
  The double nearest to a number (round to nearest, ties to even): the number is
  rounded to a multiple of \<open>2\<^sup>k\<^sup>-\<^sup>5\<^sup>2\<close>, which leaves 53 significant bits. Overflow and the
  subnormal range are not modelled; the values of a pixel do not reach them.
\<close>

definition to_double :: "rat \<Rightarrow> rat" where
  "to_double x =
     (if x = 0 then 0
      else (let g = pow2 (binade \<bar>x\<bar> - 52)
            in sgn x * of_int (round_half_even (\<bar>x\<bar> / g)) * g))"

text \<open>The relative error of one rounding is at most \<open>2\<^sup>-\<^sup>5\<^sup>3\<close>.\<close>

definition unit_roundoff :: rat where
  "unit_roundoff = 1 / 2 ^ 53"

section \<open>The preprocessing pipeline of the page component (drawToCanvas)\<close>

record config =
  grayscale :: bool
  invert :: bool
  thresholdEnabled :: bool
  threshold :: rat
  scale :: rat

text \<open>
  \<^verbatim>\<open>0.299 * r + 0.587 * g + 0.114 * b\<close> on the channel values of one pixel, in double
  arithmetic: each literal is the double nearest to its decimal, each product is
  rounded, and the sums are rounded from left to right.
\<close>

definition luminance :: "u8 \<Rightarrow> u8 \<Rightarrow> u8 \<Rightarrow> rat" where
  "luminance r g b =
     to_double
       (to_double (to_double (to_double (299 / 1000) * of_int (uint r)) +
                   to_double (to_double (587 / 1000) * of_int (uint g))) +
        to_double (to_double (114 / 1000) * of_int (uint b)))"

text \<open>
  The weighted sum of the specification, \<open>0.299 R + 0.587 G + 0.114 B\<close>, in exact
  arithmetic; the computed luminance is compared with it below.
\<close>

definition weighted_sum :: "u8 \<Rightarrow> u8 \<Rightarrow> u8 \<Rightarrow> rat" where
  "weighted_sum r g b =
     299 / 1000 * of_int (uint r) + 587 / 1000 * of_int (uint g) + 114 / 1000 * of_int (uint b)"

text \<open>
  Each stage is a loop \<^verbatim>\<open>for (let i = 0; i < data.length; i += 4)\<close> over the flat
  buffer. The length of an \<^verbatim>\<open>ImageData\<close> buffer is a multiple of four, so the last
  equation of each function is only reached on the empty rest.
\<close>

fun grayscale_loop :: "u8 list \<Rightarrow> u8 list" where
  "grayscale_loop (r # g # b # a # rest) =
     (let l = Math_round (luminance r g b)
      in uint8_clamp l # uint8_clamp l # uint8_clamp l # a # grayscale_loop rest)"
| "grayscale_loop rest = rest"

fun threshold_loop :: "rat \<Rightarrow> u8 list \<Rightarrow> u8 list" where
  "threshold_loop t (r # g # b # a # rest) =
     (let v = uint r;
          bin = (if of_int v > t then 255 else 0)
      in uint8_clamp bin # uint8_clamp bin # uint8_clamp bin # a # threshold_loop t rest)"
| "threshold_loop t rest = rest"

fun invert_loop :: "u8 list \<Rightarrow> u8 list" where
  "invert_loop (r # g # b # a # rest) =
     uint8_clamp (255 - uint r) # uint8_clamp (255 - uint g) # uint8_clamp (255 - uint b) # a
       # invert_loop rest"
| "invert_loop rest = rest"

text \<open>
  The three stages in the order of the source: grayscale when \<open>grayscale\<close> or
  \<open>thresholdEnabled\<close>, then threshold, then invert.
\<close>

definition color_stages :: "config \<Rightarrow> u8 list \<Rightarrow> u8 list" where
  "color_stages cfg data =
     (let d1 = (if grayscale cfg \<or> thresholdEnabled cfg then grayscale_loop data else data);
          d2 = (if thresholdEnabled cfg then threshold_loop (threshold cfg) d1 else d1);
          d3 = (if invert cfg then invert_loop d2 else d2)
      in d3)"

text \<open>
  \<open>drawToCanvas\<close>: the canvas is sized to the scaled image, the image is drawn on it and
  the pixels are read back, then the colour stages run on them. Drawing and reading back
  are the browser's; \<open>getImageData w h\<close> stands for the buffer read from the canvas after
  \<^verbatim>\<open>ctx.drawImage(img, 0, 0, w, h)\<close>, whatever the browser's resampling yields.
\<close>

definition drawToCanvas :: "(int \<Rightarrow> int \<Rightarrow> u8 list) \<Rightarrow> int \<Rightarrow> int \<Rightarrow> config \<Rightarrow> u8 list" where
  "drawToCanvas getImageData img_width img_height cfg =
     (let w = max 1 (Math_floor (of_int img_width * scale cfg));
          h = max 1 (Math_floor (of_int img_height * scale cfg))
      in color_stages cfg (getImageData w h))"

section \<open>The preprocessing of the editor panel's webview (cropToDataUrl)\<close>

text \<open>
  One loop: the luminance, not rounded to an integer, is compared with the threshold by
  \<^verbatim>\<open>>=\<close>, the three colour channels get the result and the alpha channel is set to 255.
\<close>

fun crop_threshold_loop :: "rat \<Rightarrow> u8 list \<Rightarrow> u8 list" where
  "crop_threshold_loop t (r # g # b # a # rest) =
     (let y = luminance r g b;
          v = (if y \<ge> t then 255 else 0)
      in uint8_clamp v # uint8_clamp v # uint8_clamp v # uint8_clamp 255
           # crop_threshold_loop t rest)"
| "crop_threshold_loop t rest = rest"

text \<open>The pixels of a flat buffer, four bytes each.\<close>

fun pixels :: "u8 list \<Rightarrow> (u8 \<times> u8 \<times> u8 \<times> u8) list" where
  "pixels (r # g # b # a # rest) = (r, g, b, a) # pixels rest"
| "pixels rest = []"

section \<open>Numbers and strings of the recognition results\<close>

text \<open>
  A JavaScript number that may be non-finite. The sum and the quotient of finite numbers
  are exact (overflow to infinity is not modelled); the special values follow IEEE 754.
\<close>

datatype jsnum = Num rat | NaN | PosInf | NegInf

fun js_add :: "jsnum \<Rightarrow> jsnum \<Rightarrow> jsnum" where
  "js_add (Num a) (Num b) = Num (a + b)"
| "js_add NaN _ = NaN"
| "js_add _ NaN = NaN"
| "js_add PosInf NegInf = NaN"
| "js_add NegInf PosInf = NaN"
| "js_add PosInf _ = PosInf"
| "js_add _ PosInf = PosInf"
| "js_add NegInf _ = NegInf"
| "js_add _ NegInf = NegInf"

text \<open>Division by the length of a non-empty array.\<close>

fun js_div_length :: "jsnum \<Rightarrow> nat \<Rightarrow> jsnum" where
  "js_div_length (Num a) n = Num (a / of_nat n)"
| "js_div_length x n = x"

fun isFinite :: "jsnum \<Rightarrow> bool" where
  "isFinite (Num a) = True"
| "isFinite _ = False"

fun isNaN :: "jsnum \<Rightarrow> bool" where
  "isNaN NaN = True"
| "isNaN _ = False"

text \<open>
  A string is its sequence of UTF-16 code units. \<open>js\<close> writes an ASCII literal of the
  source as such a string.
\<close>

type_synonym jsstring = "16 word list"

definition js :: "string \<Rightarrow> jsstring" where
  "js s = map (\<lambda>c. of_nat (of_char c)) s"

text \<open>
  The characters that \<^verbatim>\<open>\s\<close> matches and \<^verbatim>\<open>trim()\<close> strips: the white space and
  line terminator code points of ECMAScript.
\<close>

definition is_space :: "16 word \<Rightarrow> bool" where
  "is_space c \<longleftrightarrow>
     c = 0x09 \<or> c = 0x0A \<or> c = 0x0B \<or> c = 0x0C \<or> c = 0x0D \<or> c = 0x20 \<or> c = 0xA0 \<or>
     c = 0x1680 \<or> (0x2000 \<le> c \<and> c \<le> 0x200A) \<or> c = 0x2028 \<or> c = 0x2029 \<or>
     c = 0x202F \<or> c = 0x205F \<or> c = 0x3000 \<or> c = 0xFEFF"

definition trim :: "jsstring \<Rightarrow> jsstring" where
  "trim s = rev (dropWhile is_space (rev (dropWhile is_space s)))"

text \<open>
  \<^verbatim>\<open>s.replace(/\s+/g, "")\<close>: scanning from the left, every maximal run of white space
  is replaced by the empty string.
\<close>

function replace_space_runs :: "jsstring \<Rightarrow> jsstring" where
  "replace_space_runs [] = []"
| "replace_space_runs (c # cs) =
     (if is_space c then replace_space_runs (dropWhile is_space cs)
      else c # replace_space_runs cs)"
  by pat_completeness auto
termination
  by (relation "measure length") (auto simp: less_Suc_eq_le length_dropWhile_le)

section \<open>The result aggregation of the page component (runOcr)\<close>

text \<open>
  What \<^verbatim>\<open>Tesseract.recognize\<close> resolves to, as far as \<open>runOcr\<close> reads it: \<open>data.text\<close>
  (\<open>None\<close> when missing), \<open>data.confidence\<close> (\<open>None\<close> when it is not of type number) and
  \<open>data.words\<close> (\<open>None\<close> when it is not an array), each word with its \<open>confidence\<close>
  (\<open>None\<close> when missing).
\<close>

record tesseract_data =
  data_text :: "jsstring option"
  data_confidence :: "jsnum option"
  data_words :: "jsnum option list option"

record OcrResult =
  result_text :: jsstring
  result_confidence :: jsnum
  result_durationMs :: int

text \<open>\<^verbatim>\<open>(data?.text || "").trim().replace(/\s+/g, "")\<close>\<close>

definition ocr_text :: "tesseract_data \<Rightarrow> jsstring" where
  "ocr_text d = replace_space_runs (trim (case data_text d of None \<Rightarrow> [] | Some t \<Rightarrow> t))"

text \<open>\<^verbatim>\<open>w?.confidence || 0\<close>: a missing, zero or NaN confidence counts as 0.\<close>

fun word_confidence :: "jsnum option \<Rightarrow> jsnum" where
  "word_confidence None = Num 0"
| "word_confidence (Some NaN) = Num 0"
| "word_confidence (Some x) = x"

text \<open>
  The confidence: the overall value when it is a number and 0 otherwise, replaced by the
  average of the words' confidences when there are words and the average is finite.
\<close>

definition ocr_confidence :: "tesseract_data \<Rightarrow> jsnum" where
  "ocr_confidence d =
     (let confidence = (case data_confidence d of Some c \<Rightarrow> c | None \<Rightarrow> Num 0)
      in case data_words d of
           None \<Rightarrow> confidence
         | Some ws \<Rightarrow>
             if length ws > 0 then
               (let avg = js_div_length
                            (foldl (\<lambda>acc w. js_add acc (word_confidence w)) (Num 0) ws)
                            (length ws)
                in if isFinite avg then avg else confidence)
             else confidence)"

text \<open>
  The state of the component that \<open>runOcr\<close> writes: the result, the error text and the
  busy flag \<open>ocring\<close>.
\<close>

record solver_state =
  solver_result :: "OcrResult option"
  solver_error :: "jsstring option"
  ocring :: bool

text \<open>
  The outcome of the recognition: it resolves with data, or it rejects with an error
  whose message is given (empty when the error has none).
\<close>

datatype tesseract_outcome = Resolved tesseract_data | Rejected jsstring

text \<open>
  \<open>runOcr\<close> from the click to the end of the handler. \<open>processedDataUrl\<close> says whether
  a processed image is available and \<open>elapsed\<close> is \<^verbatim>\<open>performance.now() - started\<close>.
\<close>

definition runOcr :: "bool \<Rightarrow> tesseract_outcome \<Rightarrow> rat \<Rightarrow> solver_state \<Rightarrow> solver_state" where
  "runOcr processedDataUrl outcome elapsed s =
     (if \<not> processedDataUrl then s\<lparr>solver_error := Some (js ''No processed image available'')\<rparr>
      else case outcome of
        Resolved d \<Rightarrow>
          \<lparr>solver_result =
             Some \<lparr>result_text = ocr_text d, result_confidence = ocr_confidence d,
                   result_durationMs = Math_round elapsed\<rparr>,
           solver_error = None, ocring = False\<rparr>
      | Rejected m \<Rightarrow>
          \<lparr>solver_result = None,
           solver_error = Some (if m \<noteq> [] then m else js ''OCR failed''),
           ocring = False\<rparr>)"

section \<open>The OCR.space response and the extension host (callOcrSpace)\<close>

text \<open>
  The JSON of the service, as far as the code reads it. \<open>ErrorMessage\<close> is missing, a
  string or an array of strings. \<open>WordConfidences\<close> is \<open>None\<close> when it is not an array,
  and holds \<^verbatim>\<open>Number(x)\<close> of each element otherwise; \<open>MeanConfidence\<close> is \<open>None\<close>
  when it is not of type number. \<open>IsErroredOnProcessing\<close> is the truthiness of the flag.
\<close>

datatype error_message = NoMessage | MessageString jsstring | MessageArray "jsstring list"

record parsed_result =
  ParsedText :: "jsstring option"
  WordConfidences :: "jsnum list option"
  MeanConfidence :: "jsnum option"

record ocr_space_json =
  IsErroredOnProcessing :: bool
  ErrorMessage :: error_message
  ParsedResults :: "parsed_result list"

text \<open>
  What \<^verbatim>\<open>fetch\<close> yields: it rejects (with the message of its error), or it resolves to a
  response. \<open>status_line\<close> is the text \<^verbatim>\<open>${res.status} ${res.statusText}\<close>, \<open>body_text\<close>
  what \<^verbatim>\<open>res.text()\<close> gives (empty when it fails), and \<open>body_json\<close> what \<^verbatim>\<open>res.json()\<close>
  gives: \<open>Inl m\<close> when the body is not a JSON object and parsing or reading it throws
  with message \<open>m\<close>.
\<close>

record http_response =
  ok :: bool
  status_line :: jsstring
  body_text :: jsstring
  body_json :: "jsstring + ocr_space_json"

datatype fetch_outcome = FetchRejected jsstring | FetchResolved http_response

text \<open>
  Every \<^verbatim>\<open>throw\<close> of the recognition code is a constructor, with the message of the
  \<^verbatim>\<open>Error\<close>: the rejection of \<^verbatim>\<open>fetch\<close>, a response that is not ok, a body that is not
  JSON, and a response whose processing-error flag is set.
\<close>

datatype error =
    NetworkError jsstring
  | HttpError jsstring
  | JsonError jsstring
  | ProcessingError jsstring

fun message :: "error \<Rightarrow> jsstring" where
  "message (NetworkError m) = m"
| "message (HttpError m) = m"
| "message (JsonError m) = m"
| "message (ProcessingError m) = m"

record ocr_space_result =
  res_text :: jsstring
  res_confidence :: "jsnum option"
  res_raw :: ocr_space_json

text \<open>
  \<^verbatim>\<open>Array.isArray(data.ErrorMessage) ? data.ErrorMessage[0] : data.ErrorMessage || d\<close>,
  passed to \<^verbatim>\<open>new Error\<close>: the first element of an array (the message is empty when the
  array is), a non-empty string itself, and the default \<open>d\<close> otherwise.
\<close>

fun first_error_message :: "jsstring \<Rightarrow> error_message \<Rightarrow> jsstring" where
  "first_error_message d (MessageArray []) = []"
| "first_error_message d (MessageArray (m # ms)) = m"
| "first_error_message d (MessageString m) = (if m \<noteq> [] then m else d)"
| "first_error_message d NoMessage = d"

text \<open>The mean of the word confidences that are not NaN; undefined when there is none.\<close>

definition word_confidences_mean :: "parsed_result \<Rightarrow> jsnum option" where
  "word_confidences_mean parsed =
     (case WordConfidences parsed of
        None \<Rightarrow> None
      | Some wc \<Rightarrow>
          if length wc > 0 then
            (let vals = filter (\<lambda>v. \<not> isNaN v) wc
             in if length vals > 0
                then Some (js_div_length (foldl js_add (Num 0) vals) (length vals))
                else None)
          else None)"

definition empty_parsed_result :: parsed_result where
  "empty_parsed_result = \<lparr>ParsedText = None, WordConfidences = None, MeanConfidence = None\<rparr>"

definition callOcrSpace :: "fetch_outcome \<Rightarrow> error + ocr_space_result" where
  "callOcrSpace outcome =
     (case outcome of
        FetchRejected m \<Rightarrow> Inl (NetworkError m)
      | FetchResolved res \<Rightarrow>
          if \<not> ok res then
            Inl (HttpError (js ''OCR API error: '' @ status_line res @ js '' '' @ body_text res))
          else case body_json res of
            Inl m \<Rightarrow> Inl (JsonError m)
          | Inr data \<Rightarrow>
              if IsErroredOnProcessing data then
                Inl (ProcessingError
                       (first_error_message (js ''OCR processing error'') (ErrorMessage data)))
              else
                (let parsed = (case ParsedResults data of [] \<Rightarrow> empty_parsed_result
                               | p # ps \<Rightarrow> p);
                     text = trim (case ParsedText parsed of None \<Rightarrow> [] | Some t \<Rightarrow> t)
                 in Inr \<lparr>res_text = text, res_confidence = word_confidences_mean parsed,
                         res_raw = data\<rparr>))"

text \<open>
  The messages the host posts to the webview. The payload of \<open>ocr-result\<close> is the result
  with the duration added; \<open>String(err?.message || err)\<close> is the message of the error, and
  the text \<open>Error\<close> when the message is empty.
\<close>

record payload =
  payload_text :: "jsstring option"
  payload_confidence :: "jsnum option"
  payload_durationMs :: "int option"

datatype host_message = Ocr_result payload | Ocr_error jsstring

definition onDidReceiveMessage :: "fetch_outcome \<Rightarrow> int \<Rightarrow> host_message" where
  "onDidReceiveMessage outcome durationMs =
     (case callOcrSpace outcome of
        Inr res \<Rightarrow>
          Ocr_result \<lparr>payload_text = Some (res_text res),
                      payload_confidence = res_confidence res,
                      payload_durationMs = Some durationMs\<rparr>
      | Inl err \<Rightarrow> Ocr_error (if message err \<noteq> [] then message err else js ''Error''))"

section \<open>The popup of the browser extension\<close>

text \<open>
  The message \<open>CROP_DONE\<close> of the content script: a rectangle in display pixels and the
  device pixel ratio.
\<close>

record crop_done =
  rect_x :: rat
  rect_y :: rat
  rect_w :: rat
  rect_h :: rat
  rect_dpr :: rat

text \<open>
  The source rectangle that the listener of \<open>CROP_DONE\<close> cuts out of the screenshot:
  \<open>(sx, sy, sw, sh)\<close>.
\<close>

definition crop_source_rect :: "crop_done \<Rightarrow> int \<times> int \<times> int \<times> int" where
  "crop_source_rect rect =
     (let sx = max 0 (Math_round (rect_x rect * rect_dpr rect));
          sy = max 0 (Math_round (rect_y rect * rect_dpr rect));
          sw = max 1 (Math_round (rect_w rect * rect_dpr rect));
          sh = max 1 (Math_round (rect_h rect * rect_dpr rect))
      in (sx, sy, sw, sh))"

text \<open>\<^verbatim>\<open>xs.join(", ")\<close>\<close>

fun join_comma :: "jsstring list \<Rightarrow> jsstring" where
  "join_comma [] = []"
| "join_comma [m] = m"
| "join_comma (m # ms) = m @ js '', '' @ join_comma ms"

text \<open>
  The message of the error that the click handler of \<open>btnOCR\<close> throws when the JSON is
  \<^verbatim>\<open>null\<close> or has its processing-error flag set.
\<close>

fun joined_error_message :: "error_message \<Rightarrow> jsstring" where
  "joined_error_message (MessageArray ms) = join_comma ms"
| "joined_error_message (MessageString m) = (if m \<noteq> [] then m else js ''OCR failed'')"
| "joined_error_message NoMessage = js ''OCR failed''"

text \<open>
  What the popup shows: the text area, the confidence (\<open>None\<close> shown as the dash,
  \<open>Some None\<close> as \<open>n/a\<close>) and whether the copy button is disabled.
\<close>

record popup_view =
  ocrText_value :: jsstring
  elConfidence :: "jsnum option option"
  elDuration :: "int option"
  popup_btnCopy_disabled :: bool
  popup_btnOCR_disabled :: bool

definition popup_recognize :: "jsstring + ocr_space_json option \<Rightarrow> error + jsstring \<times> jsnum option" where
  "popup_recognize json =
     (case json of
        Inl m \<Rightarrow> Inl (NetworkError m)
      | Inr None \<Rightarrow> Inl (ProcessingError (js ''OCR failed''))
      | Inr (Some j) \<Rightarrow>
          if IsErroredOnProcessing j then
            Inl (ProcessingError (joined_error_message (ErrorMessage j)))
          else
            (let parsed = (case ParsedResults j of [] \<Rightarrow> empty_parsed_result | p # ps \<Rightarrow> p);
                 text = trim (case ParsedText parsed of None \<Rightarrow> [] | Some t \<Rightarrow> t);
                 conf = MeanConfidence parsed
             in Inr (text, conf)))"

text \<open>
  The click handler of \<open>btnOCR\<close> from the response on. \<open>json\<close> is what the request and
  \<^verbatim>\<open>res.json()\<close> yield (\<open>Inl m\<close>: one of them rejects with message \<open>m\<close>, \<open>Inr None\<close>: the
  JSON \<^verbatim>\<open>null\<close>); \<open>elapsed\<close> is the rounded duration. The copy button is only written on
  success; the button \<open>btnOCR\<close> is enabled again on every path.
\<close>

definition btnOCR_click :: "jsstring + ocr_space_json option \<Rightarrow> int \<Rightarrow> popup_view \<Rightarrow> popup_view" where
  "btnOCR_click json elapsed v =
     (case popup_recognize json of
        Inr (text, conf) \<Rightarrow>
          \<lparr>ocrText_value = text, elConfidence = Some conf, elDuration = Some elapsed,
           popup_btnCopy_disabled = (text = []), popup_btnOCR_disabled = False\<rparr>
      | Inl e \<Rightarrow>
          v\<lparr>ocrText_value :=
               js ''OCR error: '' @ (if message e \<noteq> [] then message e else js ''Error''),
            elConfidence := None, elDuration := None, popup_btnOCR_disabled := False\<rparr>)"

section \<open>The content script of the browser extension\<close>

text \<open>
  The state of the content script: whether the overlay exists (its listeners are
  registered exactly then), the style of the selection box (left, top, width and height
  in pixels; \<open>None\<close> when there is no box), the start of the drag, the flag \<open>active\<close>,
  the device pixel ratio of the window, and the messages sent to the extension so far,
  oldest first. Pointer coordinates are numbers; writing a number into the style and
  parsing it back gives the number.
\<close>

record box_style =
  style_left :: rat
  style_top :: rat
  style_width :: rat
  style_height :: rat

record content_script =
  overlay :: bool
  box :: "box_style option"
  cs_startX :: rat
  cs_startY :: rat
  active :: bool
  devicePixelRatio :: rat
  sent :: "crop_done list"

datatype cs_event =
    START_CROP
  | Mousedown int rat rat
  | Mousemove rat rat
  | Mouseup
  | Keydown string

definition removeOverlay :: "content_script \<Rightarrow> content_script" where
  "removeOverlay c = c\<lparr>overlay := False, box := None, active := False\<rparr>"

definition createOverlay :: "content_script \<Rightarrow> content_script" where
  "createOverlay c =
     (let c1 = (if overlay c then removeOverlay c else c)
      in c1\<lparr>overlay := True,
            box := Some \<lparr>style_left = 0, style_top = 0, style_width = 0, style_height = 0\<rparr>\<rparr>)"

definition updateBox :: "rat \<Rightarrow> rat \<Rightarrow> rat \<Rightarrow> rat \<Rightarrow> content_script \<Rightarrow> content_script" where
  "updateBox x y w h c =
     (case box c of
        None \<Rightarrow> c
      | Some b \<Rightarrow> c\<lparr>box := Some \<lparr>style_left = x, style_top = y, style_width = w,
                                 style_height = h\<rparr>\<rparr>)"

text \<open>\<open>getBoxRect\<close>: \<open>(x, y, w, h)\<close>, all 0 without a box.\<close>

definition getBoxRect :: "content_script \<Rightarrow> rat \<times> rat \<times> rat \<times> rat" where
  "getBoxRect c =
     (case box c of
        None \<Rightarrow> (0, 0, 0, 0)
      | Some b \<Rightarrow> (style_left b, style_top b, style_width b, style_height b))"

definition onMouseDown :: "int \<Rightarrow> rat \<Rightarrow> rat \<Rightarrow> content_script \<Rightarrow> content_script" where
  "onMouseDown button clientX clientY c =
     (if button \<noteq> 0 then c
      else updateBox clientX clientY 0 0
             (c\<lparr>active := True, cs_startX := clientX, cs_startY := clientY\<rparr>))"

definition onMouseMove :: "rat \<Rightarrow> rat \<Rightarrow> content_script \<Rightarrow> content_script" where
  "onMouseMove clientX clientY c =
     (if \<not> active c then c
      else
        (let x = min (cs_startX c) clientX;
             y = min (cs_startY c) clientY;
             w = \<bar>clientX - cs_startX c\<bar>;
             h = \<bar>clientY - cs_startY c\<bar>
         in updateBox x y w h c))"

definition onMouseUp :: "content_script \<Rightarrow> content_script" where
  "onMouseUp c =
     (if \<not> active c then c
      else
        (let c1 = c\<lparr>active := False\<rparr>;
             (x, y, w, h) = getBoxRect c1
         in if w < 2 \<or> h < 2 then removeOverlay c1
            else removeOverlay
                   (c1\<lparr>sent := sent c1 @
                         [\<lparr>rect_x = x, rect_y = y, rect_w = w, rect_h = h,
                           rect_dpr = (if devicePixelRatio c1 \<noteq> 0 then devicePixelRatio c1
                                       else 1)\<rparr>]\<rparr>)))"

definition onKeyDown :: "string \<Rightarrow> content_script \<Rightarrow> content_script" where
  "onKeyDown key c = (if key = ''Escape'' then removeOverlay c else c)"

text \<open>
  One event of the page. The pointer and key listeners exist only while the overlay
  does.
\<close>

fun cs_step :: "cs_event \<Rightarrow> content_script \<Rightarrow> content_script" where
  "cs_step START_CROP c = createOverlay c"
| "cs_step (Mousedown button x y) c = (if overlay c then onMouseDown button x y c else c)"
| "cs_step (Mousemove x y) c = (if overlay c then onMouseMove x y c else c)"
| "cs_step Mouseup c = (if overlay c then onMouseUp c else c)"
| "cs_step (Keydown key) c = (if overlay c then onKeyDown key c else c)"

text \<open>
  The content script as it is injected, in a window of device pixel ratio \<open>d\<close>.
\<close>

definition initial_content_script :: "rat \<Rightarrow> content_script" where
  "initial_content_script d =
     \<lparr>overlay = False, box = None, cs_startX = 0, cs_startY = 0, active = False,
      devicePixelRatio = d, sent = []\<rparr>"

section \<open>The webview of the editor panel\<close>

text \<open>
  \<open>canvas._drawInfo\<close>: where the image is drawn on the canvas. It is computed by
  \<open>drawImageToCanvas\<close> from the sizes of the image and of the canvas.
\<close>

record draw_info =
  offsetX :: int
  offsetY :: int
  drawW :: int
  drawH :: int

text \<open>
  The region of the canvas that \<open>cropToDataUrl\<close> reads and the size it is scaled to.
  The data URL of a message is the image of this region after the threshold loop; the
  message is modelled with the region in its place.
\<close>

record crop_region =
  crop_x :: int
  crop_y :: int
  crop_w :: int
  crop_h :: int
  scaledW :: int
  scaledH :: int

text \<open>The message \<open>run-ocr\<close> that the webview posts to the extension host.\<close>

record run_ocr =
  dataUrl :: crop_region
  msg_threshold :: rat
  msg_scale :: rat

datatype conf_text = ConfDash | ConfNA | ConfPercent jsnum

datatype dur_text = DurDash | DurMs int

text \<open>
  The state of the webview script: its variables, the values of the two sliders (as
  \<^verbatim>\<open>Number(thr.value)\<close> and \<^verbatim>\<open>Number(scale.value)\<close>), what the result fields show, the
  controls that \<open>setBusy\<close> disables, and the messages posted to the host so far, oldest
  first. \<open>ocrTimer\<close> is the time in milliseconds at which the pending timeout is due,
  \<open>None\<close> when none is pending.
\<close>

record webview =
  hasImage :: bool
  drawInfo :: "draw_info option"
  isDragging :: bool
  startX :: int
  startY :: int
  endX :: int
  endY :: int
  thr_value :: jsnum
  scale_value :: jsnum
  ocrTimer :: "nat option"
  output_value :: jsstring
  confEl :: conf_text
  durEl :: dur_text
  btnCopy_disabled :: bool
  btnOcr_disabled :: bool
  btnReset_disabled :: bool
  fileInput_disabled :: bool
  posted :: "run_ocr list"

definition getThresholdVal :: "webview \<Rightarrow> rat" where
  "getThresholdVal w = (case thr_value w of Num v \<Rightarrow> max 0 (min 255 v) | _ \<Rightarrow> 160)"

definition getScaleVal :: "webview \<Rightarrow> rat" where
  "getScaleVal w = (case scale_value w of Num v \<Rightarrow> max 1 (min 4 v) | _ \<Rightarrow> 2)"

definition setBusy :: "bool \<Rightarrow> webview \<Rightarrow> webview" where
  "setBusy b w = w\<lparr>btnOcr_disabled := b, btnReset_disabled := b, fileInput_disabled := b\<rparr>"

text \<open>\<open>normalizedRect\<close>: \<open>(x, y, w, h)\<close>, or \<open>None\<close> (the source's \<^verbatim>\<open>null\<close>).\<close>

definition normalizedRect :: "webview \<Rightarrow> (int \<times> int \<times> int \<times> int) option" where
  "normalizedRect wv =
     (let x = min (startX wv) (endX wv);
          y = min (startY wv) (endY wv);
          w = \<bar>endX wv - startX wv\<bar>;
          h = \<bar>endY wv - startY wv\<bar>
      in if w = 0 \<or> h = 0 then None else Some (x, y, w, h))"

definition selectFullImageRegion :: "webview \<Rightarrow> webview" where
  "selectFullImageRegion wv =
     (case drawInfo wv of
        None \<Rightarrow> wv
      | Some info \<Rightarrow>
          wv\<lparr>startX := offsetX info, startY := offsetY info,
             endX := offsetX info + drawW info, endY := offsetY info + drawH info\<rparr>)"

definition withinImage :: "webview \<Rightarrow> int \<Rightarrow> int \<Rightarrow> bool" where
  "withinImage wv x y =
     (case drawInfo wv of
        None \<Rightarrow> False
      | Some info \<Rightarrow>
          x \<ge> offsetX info \<and> x \<le> offsetX info + drawW info \<and>
          y \<ge> offsetY info \<and> y \<le> offsetY info + drawH info)"

definition crop_geometry :: "webview \<Rightarrow> rat \<Rightarrow> crop_region" where
  "crop_geometry wv sc =
     (let x = min (startX wv) (endX wv);
          y = min (startY wv) (endY wv);
          w = max 1 (Math_floor (of_int \<bar>endX wv - startX wv\<bar>));
          h = max 1 (Math_floor (of_int \<bar>endY wv - startY wv\<bar>));
          sw = max 1 (Math_floor (of_int w * sc));
          sh = max 1 (Math_floor (of_int h * sc))
      in \<lparr>crop_x = x, crop_y = y, crop_w = w, crop_h = h, scaledW = sw, scaledH = sh\<rparr>)"

text \<open>
  The pixels behind the data URL: \<open>getImageData r\<close> stands for the buffer read back after
  the region \<open>r\<close> of the canvas has been drawn at its scaled size, whatever the
  browser's resampling yields.
\<close>

definition cropToDataUrl :: "(crop_region \<Rightarrow> u8 list) \<Rightarrow> webview \<Rightarrow> rat \<Rightarrow> rat \<Rightarrow> u8 list" where
  "cropToDataUrl getImageData wv thr sc =
     crop_threshold_loop thr (getImageData (crop_geometry wv sc))"

definition runOcrNow :: "webview \<Rightarrow> webview" where
  "runOcrNow wv =
     (if \<not> hasImage wv then wv
      else
        (let wv1 = (case normalizedRect wv of
                      None \<Rightarrow> selectFullImageRegion wv
                    | Some (x, y, w, h) \<Rightarrow>
                        if w < 2 \<or> h < 2 then selectFullImageRegion wv else wv);
             thrValNum = getThresholdVal wv1;
             scaleNum = getScaleVal wv1;
             cropUrl = crop_geometry wv1 scaleNum;
             wv2 = setBusy True wv1
         in wv2\<lparr>posted := posted wv2 @
                   [\<lparr>dataUrl = cropUrl, msg_threshold = thrValNum, msg_scale = scaleNum\<rparr>]\<rparr>))"

text \<open>
  \<open>scheduleOcr\<close> at time \<open>now\<close>: the pending timeout is cleared and a new one is set,
  due 450 ms later.
\<close>

definition scheduleOcr :: "nat \<Rightarrow> webview \<Rightarrow> webview" where
  "scheduleOcr now wv = (if \<not> hasImage wv then wv else wv\<lparr>ocrTimer := Some (now + 450)\<rparr>)"

text \<open>The listener of the messages of the host.\<close>

fun on_message :: "host_message \<Rightarrow> webview \<Rightarrow> webview" where
  "on_message (Ocr_result p) wv =
     setBusy False
       (wv\<lparr>output_value := (case payload_text p of None \<Rightarrow> [] | Some t \<Rightarrow> t),
           confEl := (case payload_confidence p of None \<Rightarrow> ConfNA | Some c \<Rightarrow> ConfPercent c),
           durEl := (case payload_durationMs p of None \<Rightarrow> DurDash | Some d \<Rightarrow> DurMs d),
           btnCopy_disabled := (case payload_text p of None \<Rightarrow> True | Some t \<Rightarrow> t = [])\<rparr>)"
| "on_message (Ocr_error m) wv =
     setBusy False
       (wv\<lparr>output_value := js ''Error: '' @ m, confEl := ConfDash, durEl := DurDash,
           btnCopy_disabled := True\<rparr>)"

text \<open>
  The events of the webview. Pointer events carry the canvas coordinates that
  \<open>clientToCanvas\<close> computes; \<open>ImageLoaded\<close> is the end of \<open>loadImageFromFile\<close>, with the
  draw info of the new image; the slider events carry the new value of the slider.
\<close>

datatype event =
    ImageLoaded draw_info
  | ThrInput jsnum
  | ScaleInput jsnum
  | MouseDown int int
  | MouseMove int int
  | MouseUp int int
  | ClickOcr
  | ClickReset
  | HostMessage host_message

text \<open>One event, handled at time \<open>now\<close>. A disabled button gets no click.\<close>

fun handle :: "nat \<Rightarrow> event \<Rightarrow> webview \<Rightarrow> webview" where
  "handle now (ImageLoaded info) wv =
     scheduleOcr now
       (selectFullImageRegion
          (wv\<lparr>drawInfo := Some info, hasImage := True, btnReset_disabled := False,
              btnOcr_disabled := False\<rparr>))"
| "handle now (ThrInput v) wv = scheduleOcr now (wv\<lparr>thr_value := v\<rparr>)"
| "handle now (ScaleInput v) wv = scheduleOcr now (wv\<lparr>scale_value := v\<rparr>)"
| "handle now (MouseDown x y) wv =
     (if \<not> hasImage wv then wv
      else if \<not> withinImage wv x y then wv
      else wv\<lparr>isDragging := True, startX := x, endX := x, startY := y, endY := y\<rparr>)"
| "handle now (MouseMove x y) wv =
     (if \<not> isDragging wv then wv else wv\<lparr>endX := x, endY := y\<rparr>)"
| "handle now (MouseUp x y) wv =
     (if \<not> isDragging wv then wv
      else scheduleOcr now (wv\<lparr>endX := x, endY := y, isDragging := False\<rparr>))"
| "handle now ClickOcr wv =
     (if btnOcr_disabled wv then wv else if \<not> hasImage wv then wv else runOcrNow wv)"
| "handle now ClickReset wv =
     (if btnReset_disabled wv then wv
      else if \<not> hasImage wv then wv
      else wv\<lparr>startX := 0, startY := 0, endX := 0, endY := 0, output_value := [],
              confEl := ConfDash, durEl := DurDash\<rparr>)"
| "handle now (HostMessage m) wv = on_message m wv"

text \<open>
  Time reaches \<open>t\<close>: a pending timeout that is due runs its callback \<open>runOcrNow\<close>, once.
\<close>

definition advance :: "nat \<Rightarrow> webview \<Rightarrow> webview" where
  "advance t wv =
     (case ocrTimer wv of
        None \<Rightarrow> wv
      | Some due \<Rightarrow> if due \<le> t then runOcrNow (wv\<lparr>ocrTimer := None\<rparr>) else wv)"

text \<open>A run of events with their times: before each event, time reaches its time.\<close>

fun run :: "(nat \<times> event) list \<Rightarrow> webview \<Rightarrow> webview" where
  "run [] wv = wv"
| "run ((t, e) # es) wv = run es (handle t e (advance t wv))"

text \<open>
  The events that call \<open>scheduleOcr\<close> with an image loaded: a slider change, a finished
  drag, a loaded image.
\<close>

fun triggers :: "event \<Rightarrow> webview \<Rightarrow> bool" where
  "triggers (ImageLoaded info) wv = True"
| "triggers (ThrInput v) wv = hasImage wv"
| "triggers (ScaleInput v) wv = hasImage wv"
| "triggers (MouseUp x y) wv = (isDragging wv \<and> hasImage wv)"
| "triggers e wv = False"

text \<open>
  The webview as the script starts: no image, the sliders at 160 and 2 and the buttons
  disabled, as the page of the panel declares them.
\<close>

definition initial_webview :: webview where
  "initial_webview =
     \<lparr>hasImage = False, drawInfo = None, isDragging = False,
      startX = 0, startY = 0, endX = 0, endY = 0,
      thr_value = Num 160, scale_value = Num 2, ocrTimer = None,
      output_value = [], confEl = ConfDash, durEl = DurDash,
      btnCopy_disabled = True, btnOcr_disabled = True, btnReset_disabled = True,
      fileInput_disabled = False, posted = []\<rparr>"

subsection \<open>Bursts of events\<close>

text \<open>
  The notions in which the debounce property is stated. In a burst, every event comes
  before the timeout that is pending when it comes is due (within the quiet period of
  the previous trigger).
\<close>

fun burst :: "(nat \<times> event) list \<Rightarrow> webview \<Rightarrow> bool" where
  "burst [] wv = True"
| "burst ((t, e) # es) wv =
     ((case ocrTimer wv of None \<Rightarrow> True | Some due \<Rightarrow> t < due) \<and>
      burst es (handle t e (advance t wv)))"

text \<open>The times of the triggering events of a run, in order.\<close>

fun trigger_times :: "(nat \<times> event) list \<Rightarrow> webview \<Rightarrow> nat list" where
  "trigger_times [] wv = []"
| "trigger_times ((t, e) # es) wv =
     (if triggers e (advance t wv) then [t] else []) @
     trigger_times es (handle t e (advance t wv))"

text \<open>The value of each slider after the events, given its value before them.\<close>

fun last_thr :: "(nat \<times> event) list \<Rightarrow> jsnum \<Rightarrow> jsnum" where
  "last_thr [] v = v"
| "last_thr ((t, ThrInput v') # es) v = last_thr es v'"
| "last_thr ((t, e) # es) v = last_thr es v"

fun last_scale :: "(nat \<times> event) list \<Rightarrow> jsnum \<Rightarrow> jsnum" where
  "last_scale [] v = v"
| "last_scale ((t, ScaleInput v') # es) v = last_scale es v'"
| "last_scale ((t, e) # es) v = last_scale es v"

section \<open>Properties of the preprocessing pipelines\<close>

subsection \<open>Bytes\<close>

lemma uint_uint8_clamp: "0 \<le> x \<Longrightarrow> x \<le> 255 \<Longrightarrow> uint (uint8_clamp x) = x"
  by (simp add: uint8_clamp_def uint_word_of_int take_bit_eq_mod)

lemma uint_u8_le: "uint (x :: u8) \<le> 255"
  using uint_bounded [of x] by simp

lemma of_int_uint_u8_bounds:
  "(0::rat) \<le> of_int (uint (x :: u8)) \<and> (of_int (uint x) :: rat) \<le> 255"
proof -
  have "(of_int (uint x) :: rat) \<le> of_int 255"
    by (rule iffD2 [OF of_int_le_iff]) (rule uint_u8_le)
  moreover have "(0::rat) \<le> of_int (uint x)"
    by (rule iffD2 [OF of_int_0_le_iff]) simp
  ultimately show ?thesis by simp
qed

subsection \<open>The rounding error of the luminance\<close>

lemma round_half_even_error: "\<bar>of_int (round_half_even y) - y\<bar> \<le> 1 / 2"
proof -
  have a: "of_int \<lfloor>y\<rfloor> \<le> y" and b: "y < of_int \<lfloor>y\<rfloor> + 1" by linarith+
  show ?thesis unfolding round_half_even_def Let_def using a b by (auto simp: abs_le_iff)
qed

lemma pow2_pos: "0 < pow2 k"
  by (simp add: pow2_def)

lemma pow2_powi: "pow2 k = 2 powi k"
  by (simp add: pow2_def power_int_def power_inverse [symmetric] inverse_eq_divide power_one_over)

lemma pow2_minus_52: "pow2 (k - 52) * 2 ^ 52 = pow2 k"
proof -
  have "(2::rat) powi (k - 52) = 2 powi k / 2 powi 52"
    by (rule power_int_diff) simp
  then show ?thesis by (simp add: pow2_powi)
qed

lemma binade_le:
  assumes "0 < x"
  shows "pow2 (binade x) \<le> x"
proof (cases "1 \<le> x")
  case True
  then have n: "0 < \<lfloor>x\<rfloor>" by linarith
  from bitlen_bounds [OF n] have b: "2 ^ nat (bitlen \<lfloor>x\<rfloor> - 1) \<le> \<lfloor>x\<rfloor>" by simp
  have ge: "1 \<le> bitlen \<lfloor>x\<rfloor>" using n by (auto simp: bitlen_alt_def)
  have "(2::rat) ^ nat (bitlen \<lfloor>x\<rfloor> - 1) = of_int (2 ^ nat (bitlen \<lfloor>x\<rfloor> - 1))" by simp
  also have "\<dots> \<le> of_int \<lfloor>x\<rfloor>" using b by (simp only: of_int_le_iff)
  also have "\<dots> \<le> x" by simp
  finally show ?thesis using True ge by (simp add: binade_def pow2_def)
next
  case False
  with assms have x1: "x < 1" by simp
  then have "1 < 1 / x" using assms by simp
  then have c: "2 \<le> \<lceil>1 / x\<rceil>" by linarith
  let ?n = "\<lceil>1 / x\<rceil> - 1"
  have n: "0 < ?n" using c by simp
  from bitlen_bounds [OF n] have b: "?n < 2 ^ nat (bitlen ?n)" by simp
  then have "\<lceil>1 / x\<rceil> \<le> 2 ^ nat (bitlen ?n)" by simp
  then have "(of_int \<lceil>1 / x\<rceil> :: rat) \<le> of_int (2 ^ nat (bitlen ?n))"
    by (simp only: of_int_le_iff)
  also have "(of_int (2 ^ nat (bitlen ?n)) :: rat) = 2 ^ nat (bitlen ?n)" by simp
  finally have "(of_int \<lceil>1 / x\<rceil> :: rat) \<le> 2 ^ nat (bitlen ?n)" .
  moreover have "1 / x \<le> of_int \<lceil>1 / x\<rceil>" by (rule le_of_int_ceiling)
  ultimately have "1 / x \<le> 2 ^ nat (bitlen ?n)" by (rule order_trans [rotated])
  then have le: "1 / 2 ^ nat (bitlen ?n) \<le> x"
    using assms by (simp add: field_simps)
  have ge: "1 \<le> bitlen ?n" using n by (auto simp: bitlen_alt_def)
  show ?thesis using False le ge by (simp add: binade_def pow2_def)
qed

text \<open>With \<open>binade_le\<close>: \<open>binade x\<close> is the exponent of the binade of \<open>x\<close>.\<close>

lemma binade_less:
  assumes "0 < x"
  shows "x < pow2 (binade x + 1)"
proof (cases "1 \<le> x")
  case True
  then have n: "0 < \<lfloor>x\<rfloor>" by linarith
  from bitlen_bounds [OF n] have "\<lfloor>x\<rfloor> < 2 ^ nat (bitlen \<lfloor>x\<rfloor>)" by simp
  then have "\<lfloor>x\<rfloor> + 1 \<le> 2 ^ nat (bitlen \<lfloor>x\<rfloor>)" by simp
  then have "(of_int (\<lfloor>x\<rfloor> + 1) :: rat) \<le> of_int (2 ^ nat (bitlen \<lfloor>x\<rfloor>))"
    by (simp only: of_int_le_iff)
  also have "(of_int (2 ^ nat (bitlen \<lfloor>x\<rfloor>)) :: rat) = 2 ^ nat (bitlen \<lfloor>x\<rfloor>)" by simp
  finally have "(of_int (\<lfloor>x\<rfloor> + 1) :: rat) \<le> 2 ^ nat (bitlen \<lfloor>x\<rfloor>)" .
  moreover have "x < of_int (\<lfloor>x\<rfloor> + 1)" by linarith
  ultimately have "x < 2 ^ nat (bitlen \<lfloor>x\<rfloor>)" by (rule less_le_trans [rotated])
  moreover have "0 \<le> bitlen \<lfloor>x\<rfloor>" by (rule bitlen_nonneg)
  ultimately show ?thesis using True by (simp add: binade_def pow2_def)
next
  case False
  with assms have x1: "x < 1" by simp
  then have "1 < 1 / x" using assms by simp
  then have c: "2 \<le> \<lceil>1 / x\<rceil>" by linarith
  let ?n = "\<lceil>1 / x\<rceil> - 1"
  have n: "0 < ?n" using c by simp
  have ge: "1 \<le> bitlen ?n" using n by (auto simp: bitlen_alt_def)
  from bitlen_bounds [OF n] have "2 ^ nat (bitlen ?n - 1) \<le> ?n" by simp
  then have "(of_int (2 ^ nat (bitlen ?n - 1)) :: rat) \<le> of_int ?n"
    by (simp only: of_int_le_iff)
  moreover have "(of_int (2 ^ nat (bitlen ?n - 1)) :: rat) = 2 ^ nat (bitlen ?n - 1)" by simp
  ultimately have a: "(2::rat) ^ nat (bitlen ?n - 1) \<le> of_int ?n" by simp
  have "(of_int ?n :: rat) < 1 / x" by linarith
  with a have "(2::rat) ^ nat (bitlen ?n - 1) < 1 / x" by (rule le_less_trans)
  then have lt: "x < 1 / 2 ^ nat (bitlen ?n - 1)"
    using assms by (simp add: field_simps)
  show ?thesis
  proof (cases "bitlen ?n = 1")
    case True
    then show ?thesis using False x1 by (simp add: binade_def pow2_def)
  next
    case b: False
    with ge have "1 < bitlen ?n" by simp
    then show ?thesis using False lt
      by (simp add: binade_def pow2_def)
  qed
qed

lemma to_double_error:
  assumes "0 < x"
  shows "\<bar>to_double x - x\<bar> \<le> x / 2 ^ 53"
proof -
  define g where "g = pow2 (binade x - 52)"
  have gpos: "0 < g" by (simp add: g_def pow2_pos)
  have td: "to_double x = of_int (round_half_even (x / g)) * g"
    using assms by (simp add: to_double_def g_def Let_def)
  have "g * 2 ^ 52 = pow2 (binade x)" unfolding g_def by (rule pow2_minus_52)
  then have gx: "g * 2 ^ 52 \<le> x" using binade_le [OF assms] by simp
  have "to_double x - x = (of_int (round_half_even (x / g)) - x / g) * g"
    using gpos by (simp add: td field_simps)
  then have "\<bar>to_double x - x\<bar> = \<bar>of_int (round_half_even (x / g)) - x / g\<bar> * g"
    using gpos by (simp add: abs_mult)
  also have "\<dots> \<le> 1 / 2 * g"
    using round_half_even_error [of "x / g"] gpos by (intro mult_right_mono) simp_all
  also have "\<dots> \<le> x / 2 ^ 53" using gx by simp
  finally show ?thesis .
qed


lemma to_double_between:
  assumes "0 \<le> x"
  shows "x * (1 - unit_roundoff) \<le> to_double x \<and> to_double x \<le> x * (1 + unit_roundoff)"
proof (cases "x = 0")
  case True
  then show ?thesis by (simp add: to_double_def)
next
  case False
  with assms have "0 < x" by simp
  from to_double_error [OF this]
  have "to_double x - x \<le> x / 2 ^ 53" and "- (x / 2 ^ 53) \<le> to_double x - x"
    by linarith+
  then show ?thesis
    by (simp add: unit_roundoff_def right_diff_distrib distrib_left)
qed

lemma to_double_nonneg: "0 \<le> x \<Longrightarrow> 0 \<le> to_double x"
proof -
  assume a: "0 \<le> x"
  have "0 \<le> x * (1 - unit_roundoff)" using a by (simp add: unit_roundoff_def)
  with to_double_between [OF a] show ?thesis by linarith
qed

text \<open>Rounding a value that lies between \<open>a * lo\<close> and \<open>a * hi\<close>.\<close>

lemma to_double_step:
  assumes "0 \<le> a" and "0 \<le> lo" and "a * lo \<le> x" and "x \<le> a * hi"
  shows "a * (lo * (1 - unit_roundoff)) \<le> to_double x \<and>
         to_double x \<le> a * (hi * (1 + unit_roundoff))"
proof -
  have x0: "0 \<le> x" using assms(1-3) by (meson mult_nonneg_nonneg order_trans)
  have u0: "0 \<le> 1 - unit_roundoff" "0 \<le> 1 + unit_roundoff" by (simp_all add: unit_roundoff_def)
  from to_double_between [OF x0]
  have l: "x * (1 - unit_roundoff) \<le> to_double x" and h: "to_double x \<le> x * (1 + unit_roundoff)"
    by simp_all
  have "a * lo * (1 - unit_roundoff) \<le> x * (1 - unit_roundoff)"
    using assms(3) u0(1) by (rule mult_right_mono)
  moreover have "x * (1 + unit_roundoff) \<le> a * hi * (1 + unit_roundoff)"
    using assms(4) u0(2) by (rule mult_right_mono)
  ultimately show ?thesis using l h by (simp add: mult.assoc)
qed


lemma product_term:
  assumes "0 \<le> w" and "0 \<le> v"
  shows "w * v * ((1 - unit_roundoff) * (1 - unit_roundoff)) \<le> to_double (to_double w * v) \<and>
         to_double (to_double w * v) \<le> w * v * ((1 + unit_roundoff) * (1 + unit_roundoff))"
proof -
  have lo0: "0 \<le> 1 - unit_roundoff" by (simp add: unit_roundoff_def)
  from to_double_between [OF assms(1)]
  have "w * (1 - unit_roundoff) * v \<le> to_double w * v"
    and "to_double w * v \<le> w * (1 + unit_roundoff) * v"
    using assms(2) by (simp_all add: mult_right_mono)
  then have a: "w * v * (1 - unit_roundoff) \<le> to_double w * v"
    and b: "to_double w * v \<le> w * v * (1 + unit_roundoff)"
    by (simp_all add: mult.commute mult.left_commute)
  have wv: "0 \<le> w * v" using assms by simp
  from to_double_step [OF wv lo0 a b] show ?thesis .
qed

lemma luminance_between:
  "weighted_sum r g b * (1 - unit_roundoff) ^ 4 \<le> luminance r g b \<and>
   luminance r g b \<le> weighted_sum r g b * (1 + unit_roundoff) ^ 4"
proof -
  define lo where "lo = 1 - unit_roundoff"
  define hi where "hi = 1 + unit_roundoff"
  have lo0: "0 \<le> lo" and lo1: "lo \<le> 1" and hi1: "1 \<le> hi"
    by (simp_all add: lo_def hi_def unit_roundoff_def)
  define a1 a2 a3 :: rat where "a1 = 299 / 1000 * of_int (uint r)"
    and "a2 = 587 / 1000 * of_int (uint g)" and "a3 = 114 / 1000 * of_int (uint b)"
  have a0: "0 \<le> a1" "0 \<le> a2" "0 \<le> a3"
    using of_int_uint_u8_bounds [of r] of_int_uint_u8_bounds [of g] of_int_uint_u8_bounds [of b]
    unfolding a1_def a2_def a3_def by simp_all
  define p1 p2 p3 where "p1 = to_double (to_double (299 / 1000) * of_int (uint r))"
    and "p2 = to_double (to_double (587 / 1000) * of_int (uint g))"
    and "p3 = to_double (to_double (114 / 1000) * of_int (uint b))"
  have p1: "a1 * (lo * lo) \<le> p1 \<and> p1 \<le> a1 * (hi * hi)"
    unfolding p1_def a1_def lo_def hi_def
    using of_int_uint_u8_bounds [of r] by (intro product_term) simp_all
  have p2: "a2 * (lo * lo) \<le> p2 \<and> p2 \<le> a2 * (hi * hi)"
    unfolding p2_def a2_def lo_def hi_def
    using of_int_uint_u8_bounds [of g] by (intro product_term) simp_all
  have p3: "a3 * (lo * lo) \<le> p3 \<and> p3 \<le> a3 * (hi * hi)"
    unfolding p3_def a3_def lo_def hi_def
    using of_int_uint_u8_bounds [of b] by (intro product_term) simp_all
  have s: "(a1 + a2) * (lo * lo) \<le> p1 + p2 \<and> p1 + p2 \<le> (a1 + a2) * (hi * hi)"
    using p1 p2 by (simp add: distrib_right)
  have a12: "0 \<le> a1 + a2" using a0 by simp
  have ll: "0 \<le> lo * lo" using lo0 by simp
  define q where "q = to_double (p1 + p2)"
  have q: "(a1 + a2) * (lo * lo * lo) \<le> q \<and> q \<le> (a1 + a2) * (hi * hi * hi)"
    unfolding q_def lo_def hi_def
    using to_double_step [OF a12 ll [unfolded lo_def] s [unfolded lo_def hi_def, THEN conjunct1]
        s [unfolded lo_def hi_def, THEN conjunct2]]
    by simp
  have "lo * lo * lo \<le> lo * lo" using lo0 lo1 ll by (simp add: mult_left_le)
  then have "a3 * (lo * lo * lo) \<le> a3 * (lo * lo)" using a0(3) by (rule mult_left_mono)
  then have l3: "a3 * (lo * lo * lo) \<le> p3" using p3 by linarith
  have "hi * hi \<le> hi * hi * hi" using hi1 by (simp add: mult_le_cancel_left1)
  then have "a3 * (hi * hi) \<le> a3 * (hi * hi * hi)" using a0(3) by (rule mult_left_mono)
  then have h3: "p3 \<le> a3 * (hi * hi * hi)" using p3 by linarith
  have t: "(a1 + a2 + a3) * (lo * lo * lo) \<le> q + p3 \<and> q + p3 \<le> (a1 + a2 + a3) * (hi * hi * hi)"
    using q l3 h3 by (simp add: distrib_right)
  have a123: "0 \<le> a1 + a2 + a3" using a0 by simp
  have lll: "0 \<le> lo * lo * lo" using lo0 by simp
  have "(a1 + a2 + a3) * (lo * lo * lo * lo) \<le> to_double (q + p3) \<and>
        to_double (q + p3) \<le> (a1 + a2 + a3) * (hi * hi * hi * hi)"
    using to_double_step [OF a123 lll [unfolded lo_def]
        t [unfolded lo_def hi_def, THEN conjunct1] t [unfolded lo_def hi_def, THEN conjunct2]]
    unfolding lo_def hi_def by simp
  moreover have "luminance r g b = to_double (q + p3)"
    by (simp add: luminance_def q_def p1_def p2_def p3_def)
  moreover have "weighted_sum r g b = a1 + a2 + a3"
    by (simp add: weighted_sum_def a1_def a2_def a3_def)
  ultimately show ?thesis
    by (simp add: lo_def hi_def power4_eq_xxxx mult.assoc)
qed

lemma weighted_sum_bounds: "0 \<le> weighted_sum r g b \<and> weighted_sum r g b \<le> 255"
  unfolding weighted_sum_def
  using of_int_uint_u8_bounds [of r] of_int_uint_u8_bounds [of g] of_int_uint_u8_bounds [of b]
  by simp

lemma luminance_close: "\<bar>luminance r g b - weighted_sum r g b\<bar> \<le> 1 / 10 ^ 12"
proof -
  define E where "E = weighted_sum r g b"
  have E: "0 \<le> E" "E \<le> 255" using weighted_sum_bounds [of r g b] by (simp_all add: E_def)
  have h: "(1 + unit_roundoff) ^ 4 - 1 \<le> 1 / (255 * 10 ^ 12)"
    and l: "1 - (1 - unit_roundoff) ^ 4 \<le> 1 / (255 * 10 ^ 12)"
    by (simp_all add: unit_roundoff_def power_divide)
  from luminance_between [of r g b]
  have a: "E * (1 - unit_roundoff) ^ 4 \<le> luminance r g b"
    and b: "luminance r g b \<le> E * (1 + unit_roundoff) ^ 4" by (simp_all add: E_def)
  have "E * ((1 + unit_roundoff) ^ 4 - 1) \<le> E * (1 / (255 * 10 ^ 12))"
    using h E(1) by (rule mult_left_mono)
  also have "\<dots> \<le> 255 * (1 / (255 * 10 ^ 12))" using E(2) by (intro mult_right_mono) simp_all
  finally have up: "E * (1 + unit_roundoff) ^ 4 - E \<le> 1 / 10 ^ 12"
    by (simp add: right_diff_distrib)
  have "E * (1 - (1 - unit_roundoff) ^ 4) \<le> E * (1 / (255 * 10 ^ 12))"
    using l E(1) by (rule mult_left_mono)
  also have "\<dots> \<le> 255 * (1 / (255 * 10 ^ 12))" using E(2) by (intro mult_right_mono) simp_all
  finally have dn: "E - E * (1 - unit_roundoff) ^ 4 \<le> 1 / 10 ^ 12"
    by (simp add: right_diff_distrib)
  show ?thesis using a b up dn unfolding E_def [symmetric] by linarith
qed

lemma luminance_bounds: "0 \<le> luminance r g b \<and> luminance r g b < 255 + 1 / 2"
proof -
  have "0 \<le> weighted_sum r g b * (1 - unit_roundoff) ^ 4"
    using weighted_sum_bounds [of r g b] by (intro mult_nonneg_nonneg) simp_all
  then have "0 \<le> luminance r g b" using luminance_between [of r g b] by linarith
  moreover have "(1::rat) / 10 ^ 12 \<le> 1 / 4" by simp
  then have "luminance r g b < 255 + 1 / 2"
    using luminance_close [of r g b] weighted_sum_bounds [of r g b] by linarith
  ultimately show ?thesis by simp
qed

lemma round_luminance_bounds:
  "0 \<le> Math_round (luminance r g b) \<and> Math_round (luminance r g b) \<le> 255"
proof -
  from luminance_bounds [of r g b]
  have "0 \<le> luminance r g b + 1 / 2" and "luminance r g b + 1 / 2 < 256" by linarith+
  then show ?thesis unfolding Math_round_def by (simp add: floor_less_iff le_floor_iff)
qed

lemma uint_clamp_round_luminance:
  "uint (uint8_clamp (Math_round (luminance r g b))) = Math_round (luminance r g b)"
  using round_luminance_bounds [of r g b] by (simp add: uint_uint8_clamp)

lemma invert_invert_byte: "uint8_clamp (255 - uint (uint8_clamp (255 - uint x))) = (x :: u8)"
proof -
  have a: "0 \<le> 255 - uint x" "255 - uint x \<le> 255" using uint_u8_le [of x] by simp_all
  then have "uint (uint8_clamp (255 - uint x)) = 255 - uint x" by (rule uint_uint8_clamp)
  then show ?thesis by (simp add: uint8_clamp_def uint_u8_le)
qed

lemma invert_loop_involution: "invert_loop (invert_loop d) = d"
  by (induction d rule: invert_loop.induct) (simp_all add: invert_invert_byte)

lemma pixels_grayscale_loop:
  "pixels (grayscale_loop d) =
     map (\<lambda>(r, g, b, a). let l = uint8_clamp (Math_round (luminance r g b)) in (l, l, l, a)) (pixels d)"
  by (induction d rule: grayscale_loop.induct) (simp_all add: Let_def)

lemma pixels_threshold_loop:
  "pixels (threshold_loop t d) =
     map (\<lambda>(r, g, b, a). let v = (if of_int (uint r) > t then 255 else 0) in (v, v, v, a)) (pixels d)"
  by (induction t d rule: threshold_loop.induct) (simp_all add: Let_def uint8_clamp_def)

lemma pixels_invert_loop:
  "pixels (invert_loop d) =
     map (\<lambda>(r, g, b, a). (255 - r, 255 - g, 255 - b, a)) (pixels d)"
  apply (induction d rule: invert_loop.induct)
  apply (simp_all add: uint8_clamp_def uint_u8_le)
  done

lemma pixels_crop_threshold_loop:
  "pixels (crop_threshold_loop t d) =
     map (\<lambda>(r, g, b, a). let v = (if luminance r g b \<ge> t then 255 else 0) in (v, v, v, 255)) (pixels d)"
  by (induction t d rule: crop_threshold_loop.induct) (simp_all add: Let_def uint8_clamp_def)

lemma unsigned_clamp_round_luminance:
  "(unsigned (uint8_clamp (Math_round (luminance r g b))) :: rat) =
     of_int (Math_round (luminance r g b))"
proof -
  have "(unsigned (uint8_clamp (Math_round (luminance r g b))) :: rat) =
          of_int (uint (uint8_clamp (Math_round (luminance r g b))))"
    by (rule of_int_uint [symmetric])
  then show ?thesis by (simp only: uint_clamp_round_luminance)
qed

lemma pixels_threshold_gray:
  "pixels (threshold_loop t (grayscale_loop d)) =
     map (\<lambda>(r, g, b, a). let v = (if of_int (Math_round (luminance r g b)) > t then 255 else 0) in (v, v, v, a)) (pixels d)"
  by (simp add: pixels_threshold_loop pixels_grayscale_loop Let_def split_def comp_def unsigned_clamp_round_luminance)

subsection \<open>Invert\<close>

lemma drawToCanvas_invert_last:
  "drawToCanvas g iw ih (cfg\<lparr>invert := True\<rparr>) =
     invert_loop (drawToCanvas g iw ih (cfg\<lparr>invert := False\<rparr>))"
  by (simp add: drawToCanvas_def color_stages_def Let_def)

text \<open>
  Claim C7. In the page component, invert is the last stage of the pipeline: the output
  with invert enabled is the invert loop applied to the output with invert disabled.
  Applying the invert stage once more to the output of the pipeline run with invert
  enabled gives back the buffer before the invert stage, byte for byte. The invert loop
  maps every colour channel \<open>c\<close> to \<open>255 - c\<close> and leaves the alpha channel as it is.
\<close>

theorem invert_twice_restores:
  "invert_loop (drawToCanvas getImageData iw ih (cfg\<lparr>invert := True\<rparr>)) =
     drawToCanvas getImageData iw ih (cfg\<lparr>invert := False\<rparr>) \<and>
   drawToCanvas getImageData iw ih (cfg\<lparr>invert := True\<rparr>) =
     invert_loop (drawToCanvas getImageData iw ih (cfg\<lparr>invert := False\<rparr>)) \<and>
   pixels (invert_loop d) = map (\<lambda>(r, g, b, a). (255 - r, 255 - g, 255 - b, a)) (pixels d)"
  by (simp only: drawToCanvas_invert_last invert_loop_involution pixels_invert_loop)

subsection \<open>Threshold\<close>

lemma rgb_page_threshold:
  assumes "thresholdEnabled cfg"
  shows "map (\<lambda>(r, g, b, a). (r, g, b)) (pixels (color_stages cfg d)) =
     map (\<lambda>(r, g, b, a).
            let L = Math_round (luminance r g b);
                bin = (if of_int L > threshold cfg then 255 else 0);
                v = (if invert cfg then 255 - bin else bin)
            in (v, v, v))
         (pixels d)"
  using assms
  by (simp add: color_stages_def pixels_invert_loop pixels_threshold_gray Let_def split_def comp_def)

lemma to_double_zero: "to_double 0 = 0"
  by (simp add: to_double_def)

lemma luminance_black: "luminance 0 0 0 = 0"
  by (simp add: luminance_def to_double_zero)

text \<open>The luminance at some pixels, computed by evaluation.\<close>

lemma round_luminance_0_36_12: "Math_round (luminance 0 36 12) = 22"
  by code_simp

lemma round_luminance_gray_22: "Math_round (luminance 22 22 22) = 22"
  by code_simp

lemma round_luminance_gray_23: "Math_round (luminance 23 23 23) = 23"
  by code_simp

lemma round_luminance_white: "Math_round (luminance 255 255 255) = 255"
  by code_simp

lemma luminance_gray_128: "luminance 128 128 128 = 9007199254740991 / 70368744177664"
  by code_simp

lemma luminance_gray_129: "luminance 129 129 129 = 129"
  by code_simp

text \<open>
  Claim C1, as amended. The luminance is the value of \<open>0.299 R + 0.587 G + 0.114 B\<close> as
  double arithmetic computes it; it differs from the exact weighted sum by at most
  \<open>10\<^sup>-\<^sup>1\<^sup>2\<close>. In the page component, when the threshold is enabled, every pixel with
  \<open>L = Math.round(luminance)\<close> gets the value 255 on its three colour channels when
  \<open>L > threshold\<close> and 0 otherwise (a pixel whose \<open>L\<close> equals the threshold becomes black),
  and the invert stage then turns the value into its complement when invert is enabled.
  In the webview of the editor panel the comparison is not strict and the luminance is
  not rounded to an integer: every pixel gets 255 when its computed luminance is at
  least the threshold and 0 otherwise.
\<close>

theorem threshold_stage_per_variant:
  "(thresholdEnabled cfg \<longrightarrow>
      map (\<lambda>(r, g, b, a). (r, g, b)) (pixels (drawToCanvas getImageData iw ih cfg)) =
        map (\<lambda>(r, g, b, a).
               let L = Math_round (luminance r g b);
                   bin = (if of_int L > threshold cfg then 255 else 0);
                   v = (if invert cfg then 255 - bin else bin)
               in (v, v, v))
            (pixels (getImageData (max 1 (Math_floor (of_int iw * scale cfg)))
                                  (max 1 (Math_floor (of_int ih * scale cfg)))))) \<and>
   map (\<lambda>(r, g, b, a). (r, g, b)) (pixels (cropToDataUrl canvasData wv thr sc)) =
     map (\<lambda>(r, g, b, a). let v = (if luminance r g b \<ge> thr then 255 else 0) in (v, v, v))
         (pixels (canvasData (crop_geometry wv sc))) \<and>
   \<bar>luminance r' g' b' - weighted_sum r' g' b'\<bar> \<le> 1 / 10 ^ 12"
proof (intro conjI)
  show "thresholdEnabled cfg \<longrightarrow>
      map (\<lambda>(r, g, b, a). (r, g, b)) (pixels (drawToCanvas getImageData iw ih cfg)) =
        map (\<lambda>(r, g, b, a).
               let L = Math_round (luminance r g b);
                   bin = (if of_int L > threshold cfg then 255 else 0);
                   v = (if invert cfg then 255 - bin else bin)
               in (v, v, v))
            (pixels (getImageData (max 1 (Math_floor (of_int iw * scale cfg)))
                                  (max 1 (Math_floor (of_int ih * scale cfg)))))"
    unfolding drawToCanvas_def Let_def using rgb_page_threshold [unfolded Let_def] by blast
  show "map (\<lambda>(r, g, b, a). (r, g, b)) (pixels (cropToDataUrl canvasData wv thr sc)) =
     map (\<lambda>(r, g, b, a). let v = (if luminance r g b \<ge> thr then 255 else 0) in (v, v, v))
         (pixels (canvasData (crop_geometry wv sc)))"
    by (simp add: cropToDataUrl_def pixels_crop_threshold_loop Let_def split_def comp_def)
  show "\<bar>luminance r' g' b' - weighted_sum r' g' b'\<bar> \<le> 1 / 10 ^ 12"
    by (rule luminance_close)
qed

text \<open>
  The theorem at the boundary. In the page component with the threshold at 22, the pixel
  \<open>(0, 36, 12)\<close>, whose exact weighted sum is 22.5, has the computed luminance
  \<open>22.499999999999996\<close> and \<open>L = 22\<close>: it becomes black, as the gray 22 does, and the gray
  23 becomes white. In the webview with the threshold at 128, the gray 128 has the
  computed luminance \<open>127.99999999999999\<close> and becomes black, and the gray 129 becomes
  white.
\<close>

theorem threshold_stage_per_variant_witness:
  "thresholdEnabled \<lparr>grayscale = True, invert = False, thresholdEnabled = True,
                     threshold = 22, scale = 2\<rparr> \<and>
   map (\<lambda>(r, g, b, a). (r, g, b))
     (pixels (drawToCanvas (\<lambda>w h. [0, 36, 12, 255, 22, 22, 22, 77, 23, 23, 23, 255]) 3 1
        \<lparr>grayscale = True, invert = False, thresholdEnabled = True,
         threshold = 22, scale = 2\<rparr>)) = [(0, 0, 0), (0, 0, 0), (255, 255, 255)] \<and>
   map (\<lambda>(r, g, b, a). (r, g, b))
     (pixels (cropToDataUrl (\<lambda>r. [128, 128, 128, 255, 129, 129, 129, 255])
        initial_webview 128 2)) = [(0, 0, 0), (255, 255, 255)] \<and>
   weighted_sum 0 36 12 = 45 / 2 \<and> weighted_sum 128 128 128 = 128"
  using threshold_stage_per_variant
    [of "\<lparr>grayscale = True, invert = False, thresholdEnabled = True, threshold = 22, scale = 2\<rparr>"
        "\<lambda>w h. [0, 36, 12, 255, 22, 22, 22, 77, 23, 23, 23, 255]" 3 1
        "\<lambda>r. [128, 128, 128, 255, 129, 129, 129, 255]" initial_webview 128 2]
  by (simp add: Let_def round_luminance_0_36_12 round_luminance_gray_22 round_luminance_gray_23
      luminance_gray_128 luminance_gray_129 weighted_sum_def)

text \<open>
  Claim C1 as stated fails in the webview: with the threshold at 0, a black pixel has
  the luminance 0, which is not greater than the threshold, and it becomes white.
\<close>

theorem webview_threshold_counterexample:
  "luminance 0 0 0 = 0 \<and> \<not> (of_int (Math_round (luminance 0 0 0)) > (0::rat)) \<and>
   cropToDataUrl (\<lambda>r. [0, 0, 0, 255]) initial_webview 0 2 = [255, 255, 255, 255]"
  by (simp add: cropToDataUrl_def luminance_black uint8_clamp_def Math_round_def)

subsection \<open>Alpha\<close>

text \<open>
  Claim C8, as amended. The webview of the editor panel sets the alpha channel of every
  pixel to 255. The page component never writes the alpha channel: with or without the
  threshold, every pixel leaves the pipeline with the alpha it had when read from the
  canvas.
\<close>

theorem alpha_per_variant:
  "map (\<lambda>(r, g, b, a). a) (pixels (drawToCanvas getImageData iw ih cfg)) =
     map (\<lambda>(r, g, b, a). a)
       (pixels (getImageData (max 1 (Math_floor (of_int iw * scale cfg)))
                             (max 1 (Math_floor (of_int ih * scale cfg))))) \<and>
   map (\<lambda>(r, g, b, a). a) (pixels (cropToDataUrl canvasData wv thr sc)) =
     replicate (length (pixels (canvasData (crop_geometry wv sc)))) 255"
  by (simp add: drawToCanvas_def color_stages_def cropToDataUrl_def pixels_invert_loop
      pixels_threshold_loop pixels_grayscale_loop pixels_crop_threshold_loop
      Let_def split_def comp_def map_replicate_const)

text \<open>
  Claim C8 as stated fails in the page component: with the threshold enabled, a pixel
  read with alpha 128 leaves the pipeline with alpha 128.
\<close>

theorem page_alpha_counterexample:
  "thresholdEnabled \<lparr>grayscale = True, invert = False, thresholdEnabled = True,
                     threshold = 160, scale = 2\<rparr> \<and>
   drawToCanvas (\<lambda>w h. [255, 255, 255, 128]) 1 1
      \<lparr>grayscale = True, invert = False, thresholdEnabled = True, threshold = 160, scale = 2\<rparr>
    = [255, 255, 255, 128]"
  by (simp add: drawToCanvas_def color_stages_def Let_def round_luminance_white
      uint8_clamp_def)

section \<open>Properties of the result aggregation\<close>

subsection \<open>The recognized text of the page component\<close>

lemma filter_dropWhile_space:
  "filter (\<lambda>c. \<not> is_space c) (dropWhile is_space xs) = filter (\<lambda>c. \<not> is_space c) xs"
  by (induction xs) simp_all

lemma replace_space_runs_filter: "replace_space_runs s = filter (\<lambda>c. \<not> is_space c) s"
  by (induction s rule: replace_space_runs.induct) (simp_all add: filter_dropWhile_space)

lemma filter_trim: "filter (\<lambda>c. \<not> is_space c) (trim s) = filter (\<lambda>c. \<not> is_space c) s"
  unfolding trim_def by (simp add: filter_dropWhile_space rev_filter [symmetric])

text \<open>
  Claim C10. In the page component the text of the result is the recognized text with
  every white-space character deleted, wherever it stands: the text is what is left of
  \<open>data.text\<close> (empty when missing) after removing each white-space code unit, it holds no
  white-space character, and it is the text stored in the result that \<open>runOcr\<close> sets.
\<close>

theorem result_text_has_no_white_space:
  "ocr_text d = filter (\<lambda>c. \<not> is_space c) (case data_text d of None \<Rightarrow> [] | Some t \<Rightarrow> t) \<and>
   \<not> list_ex is_space (ocr_text d) \<and>
   (\<exists>r. solver_result (runOcr True (Resolved d) elapsed s) = Some r \<and>
        result_text r = ocr_text d)"
  by (simp add: ocr_text_def replace_space_runs_filter filter_trim runOcr_def list_ex_iff)

subsection \<open>The confidence\<close>







section \<open>Properties of the recognition errors\<close>

lemma join_comma_contains:
  "s \<in> set ss \<Longrightarrow> \<exists>pre post. join_comma ss = pre @ s @ post"
proof (induction ss rule: join_comma.induct)
  case 1
  then show ?case by simp
next
  case (2 m)
  then have "join_comma [m] = [] @ s @ []" by simp
  then show ?case by blast
next
  case (3 m v va)
  show ?case
  proof (cases "s = m")
    case True
    then have "join_comma (m # v # va) = [] @ s @ (js '', '' @ join_comma (v # va))" by simp
    then show ?thesis by blast
  next
    case False
    with 3 obtain pre post where "join_comma (v # va) = pre @ s @ post" by auto
    then have "join_comma (m # v # va) = (m @ js '', '' @ pre) @ s @ post" by simp
    then show ?thesis by blast
  qed
qed

text \<open>
  Claim C9, as amended. For a response with a success status whose processing-error flag
  is set, \<open>callOcrSpace\<close> of the host fails with the processing error and returns no
  result. Its message is the \<open>ErrorMessage\<close> of the service when that is a non-empty
  string, and the first element alone when it is an array whose first element is not
  empty (the messages after the first are not surfaced); the host posts \<open>ocr-error\<close> with
  that message. A response without a success status fails before the flag is read,
  with the error of the status line and the body text. The popup of the browser
  extension reads no status: on the flag it fails, with a non-empty string as it is and
  with all messages of an array joined by a comma and a space, so that every message
  of the array stands in the message as it is, and it shows a non-empty message after
  the text \<open>OCR error: \<close>.
\<close>

theorem processing_error_message_per_variant:
  "IsErroredOnProcessing data \<longrightarrow>
     (\<exists>m. callOcrSpace (FetchResolved \<lparr>ok = True, status_line = sl, body_text = bt,
                                         body_json = Inr data\<rparr>) = Inl (ProcessingError m) \<and>
          (\<forall>s. s \<noteq> [] \<and> ErrorMessage data = MessageString s \<longrightarrow>
             m = s \<and>
             onDidReceiveMessage (FetchResolved \<lparr>ok = True, status_line = sl, body_text = bt,
                                                 body_json = Inr data\<rparr>) dur = Ocr_error s) \<and>
          (\<forall>s ss. s \<noteq> [] \<and> ErrorMessage data = MessageArray (s # ss) \<longrightarrow>
             m = s \<and>
             onDidReceiveMessage (FetchResolved \<lparr>ok = True, status_line = sl, body_text = bt,
                                                 body_json = Inr data\<rparr>) dur = Ocr_error s)) \<and>
     callOcrSpace (FetchResolved \<lparr>ok = False, status_line = sl, body_text = bt,
                                   body_json = Inr data\<rparr>) =
       Inl (HttpError (js ''OCR API error: '' @ sl @ js '' '' @ bt)) \<and>
     (\<exists>m. popup_recognize (Inr (Some data)) = Inl (ProcessingError m) \<and>
          (m \<noteq> [] \<longrightarrow>
             ocrText_value (btnOCR_click (Inr (Some data)) elapsed v) = js ''OCR error: '' @ m) \<and>
          (\<forall>s. s \<noteq> [] \<and> ErrorMessage data = MessageString s \<longrightarrow> m = s) \<and>
          (\<forall>s. ErrorMessage data = MessageArray [s] \<longrightarrow> m = s) \<and>
          (\<forall>s t. ErrorMessage data = MessageArray [s, t] \<longrightarrow> m = s @ js '', '' @ t) \<and>
          (\<forall>ss s. ErrorMessage data = MessageArray ss \<and> s \<in> set ss \<longrightarrow>
             (\<exists>pre post. m = pre @ s @ post)))"
  using join_comma_contains
  by (auto simp: callOcrSpace_def onDidReceiveMessage_def popup_recognize_def btnOCR_click_def)

text \<open>
  The theorem at a response that reports the two messages \<open>E101\<close> and \<open>Timed out\<close>: the
  host fails with \<open>E101\<close> and posts it, the popup fails with \<open>E101, Timed out\<close>, and the
  same body under the status 500 fails with the error of the status.
\<close>

theorem processing_error_message_per_variant_witness:
  "IsErroredOnProcessing \<lparr>IsErroredOnProcessing = True,
      ErrorMessage = MessageArray [js ''E101'', js ''Timed out''], ParsedResults = []\<rparr> \<and>
   callOcrSpace (FetchResolved \<lparr>ok = True, status_line = js ''200 OK'', body_text = [],
      body_json = Inr \<lparr>IsErroredOnProcessing = True,
        ErrorMessage = MessageArray [js ''E101'', js ''Timed out''], ParsedResults = []\<rparr>\<rparr>) =
     Inl (ProcessingError (js ''E101'')) \<and>
   onDidReceiveMessage (FetchResolved \<lparr>ok = True, status_line = js ''200 OK'', body_text = [],
      body_json = Inr \<lparr>IsErroredOnProcessing = True,
        ErrorMessage = MessageArray [js ''E101'', js ''Timed out''], ParsedResults = []\<rparr>\<rparr>) 120 =
     Ocr_error (js ''E101'') \<and>
   callOcrSpace (FetchResolved \<lparr>ok = False, status_line = js ''500 Internal Server Error'',
      body_text = js ''{\"IsErroredOnProcessing\":true,\"ErrorMessage\":[\"E101\",\"Timed out\"]}'',
      body_json = Inr \<lparr>IsErroredOnProcessing = True,
        ErrorMessage = MessageArray [js ''E101'', js ''Timed out''], ParsedResults = []\<rparr>\<rparr>) =
     Inl (HttpError (js ''OCR API error: 500 Internal Server Error {\"IsErroredOnProcessing\":true,\"ErrorMessage\":[\"E101\",\"Timed out\"]}'')) \<and>
   popup_recognize (Inr (Some \<lparr>IsErroredOnProcessing = True,
        ErrorMessage = MessageArray [js ''E101'', js ''Timed out''], ParsedResults = []\<rparr>)) =
     Inl (ProcessingError (js ''E101, Timed out''))"
  using processing_error_message_per_variant
    [of "\<lparr>IsErroredOnProcessing = True,
          ErrorMessage = MessageArray [js ''E101'', js ''Timed out''], ParsedResults = []\<rparr>"
        "js ''200 OK''" "[]" 120 0
        "\<lparr>ocrText_value = [], elConfidence = None, elDuration = None,
          popup_btnCopy_disabled = True, popup_btnOCR_disabled = True\<rparr>"]
    processing_error_message_per_variant
    [of "\<lparr>IsErroredOnProcessing = True,
          ErrorMessage = MessageArray [js ''E101'', js ''Timed out''], ParsedResults = []\<rparr>"
        "js ''500 Internal Server Error''" "js ''{\"IsErroredOnProcessing\":true,\"ErrorMessage\":[\"E101\",\"Timed out\"]}''" 120 0
        "\<lparr>ocrText_value = [], elConfidence = None, elDuration = None,
          popup_btnCopy_disabled = True, popup_btnOCR_disabled = True\<rparr>"]
  by (simp add: callOcrSpace_def onDidReceiveMessage_def popup_recognize_def js_def)

text \<open>
  Claim C9 as stated fails in the host. A response with a success status, the flag set
  and the two messages \<open>E101\<close> and \<open>Timed out\<close> surfaces \<open>E101\<close> alone: the second message
  is lost. When the first of the two messages is empty, the host posts the text \<open>Error\<close>
  although the service supplied \<open>Timed out\<close>. And the same flagged body under a status
  that is not a success fails with the error of the status, whose message is the status
  line and the raw body text, not the message of the service.
\<close>

theorem processing_error_message_counterexample:
  "onDidReceiveMessage (FetchResolved \<lparr>ok = True, status_line = js ''200 OK'', body_text = [],
      body_json = Inr \<lparr>IsErroredOnProcessing = True,
        ErrorMessage = MessageArray [js ''E101'', js ''Timed out''], ParsedResults = []\<rparr>\<rparr>) 120 =
     Ocr_error (js ''E101'') \<and>
   onDidReceiveMessage (FetchResolved \<lparr>ok = True, status_line = js ''200 OK'', body_text = [],
      body_json = Inr \<lparr>IsErroredOnProcessing = True,
        ErrorMessage = MessageArray [[], js ''Timed out''], ParsedResults = []\<rparr>\<rparr>) 120 =
     Ocr_error (js ''Error'') \<and>
   callOcrSpace (FetchResolved \<lparr>ok = False, status_line = js ''500 Internal Server Error'',
      body_text = js ''{\"IsErroredOnProcessing\":true,\"ErrorMessage\":\"Timed out\"}'',
      body_json = Inr \<lparr>IsErroredOnProcessing = True,
        ErrorMessage = MessageString (js ''Timed out''), ParsedResults = []\<rparr>\<rparr>) =
     Inl (HttpError (js ''OCR API error: 500 Internal Server Error {\"IsErroredOnProcessing\":true,\"ErrorMessage\":\"Timed out\"}''))"
  by (simp add: callOcrSpace_def onDidReceiveMessage_def js_def)

section \<open>Properties of the selection\<close>

lemmas cs_defs = initial_content_script_def createOverlay_def removeOverlay_def updateBox_def
  getBoxRect_def onMouseDown_def onMouseMove_def onMouseUp_def onKeyDown_def Let_def

lemmas wv_defs = initial_webview_def advance_def scheduleOcr_def selectFullImageRegion_def
  runOcrNow_def normalizedRect_def withinImage_def setBusy_def getThresholdVal_def
  getScaleVal_def crop_geometry_def Math_floor_def Let_def

subsection \<open>The rectangle in device pixels\<close>

lemma onMouseUp_sends:
  assumes "active c" and "getBoxRect c = (x, y, w, h)" and "2 \<le> w" and "2 \<le> h"
  shows "sent (onMouseUp c) = sent c @
           [\<lparr>rect_x = x, rect_y = y, rect_w = w, rect_h = h,
             rect_dpr = (if devicePixelRatio c \<noteq> 0 then devicePixelRatio c else 1)\<rparr>]"
proof -
  have "getBoxRect (c\<lparr>active := False\<rparr>) = (x, y, w, h)"
    using assms(2) by (simp add: getBoxRect_def)
  with assms(1,3,4) show ?thesis
    by (auto simp: onMouseUp_def removeOverlay_def Let_def)
qed

lemma Math_round_nearest:
  "(of_int (Math_round q) :: rat) \<le> q + 1 / 2 \<and> q - 1 / 2 < of_int (Math_round q)"
  unfolding Math_round_def by linarith

text \<open>
  Claim C6, as amended. The popup converts the rectangle of a finished selection to
  device pixels by multiplying each coordinate by the device pixel ratio and rounding
  all four of \<open>x\<close>, \<open>y\<close>, \<open>w\<close> and \<open>h\<close> to the nearest integer (a tie goes up); \<open>w\<close> and \<open>h\<close>
  are rounded, not floored. Then \<open>w\<close> and \<open>h\<close> are raised to at least 1, and \<open>x\<close> and \<open>y\<close> to
  at least 0. The content script sends the rectangle in display pixels together with
  the device pixel ratio, and the crop uses the converted rectangle only.
\<close>

theorem device_pixel_rect:
  "(crop_source_rect rect = (sx, sy, sw, sh) \<longrightarrow>
     sx = max 0 (Math_round (rect_x rect * rect_dpr rect)) \<and>
     sy = max 0 (Math_round (rect_y rect * rect_dpr rect)) \<and>
     sw = max 1 (Math_round (rect_w rect * rect_dpr rect)) \<and>
     sh = max 1 (Math_round (rect_h rect * rect_dpr rect)) \<and>
     0 \<le> sx \<and> 0 \<le> sy \<and> 1 \<le> sw \<and> 1 \<le> sh) \<and>
   (of_int (Math_round q) :: rat) \<le> q + 1 / 2 \<and> q - 1 / 2 < of_int (Math_round q) \<and>
   (overlay c \<and> active c \<and> getBoxRect c = (x, y, w, h) \<and> 2 \<le> w \<and> 2 \<le> h \<longrightarrow>
      sent (cs_step Mouseup c) = sent c @
        [\<lparr>rect_x = x, rect_y = y, rect_w = w, rect_h = h,
          rect_dpr = (if devicePixelRatio c \<noteq> 0 then devicePixelRatio c else 1)\<rparr>])"
  using Math_round_nearest [of q] onMouseUp_sends [of c x y w h]
  by (auto simp: crop_source_rect_def Let_def)

text \<open>
  The theorem at a drag from \<open>(10, 10.5)\<close> to \<open>(13, 14)\<close> in a window of device pixel ratio
  1.5: the content script sends the rectangle \<open>(10, 10.5, 3, 3.5)\<close> and the popup cuts out
  \<open>(15, 16, 5, 5)\<close>.
\<close>

theorem device_pixel_rect_witness:
  "getBoxRect (cs_step (Mousemove 13 14) (cs_step (Mousedown 0 10 (21 / 2))
      (cs_step START_CROP (initial_content_script (3 / 2))))) = (10, 21 / 2, 3, 7 / 2) \<and>
   sent (cs_step Mouseup (cs_step (Mousemove 13 14) (cs_step (Mousedown 0 10 (21 / 2))
      (cs_step START_CROP (initial_content_script (3 / 2)))))) =
     [\<lparr>rect_x = 10, rect_y = 21 / 2, rect_w = 3, rect_h = 7 / 2, rect_dpr = 3 / 2\<rparr>] \<and>
   crop_source_rect \<lparr>rect_x = 10, rect_y = 21 / 2, rect_w = 3, rect_h = 7 / 2, rect_dpr = 3 / 2\<rparr>
     = (15, 16, 5, 5)"
  using device_pixel_rect
    [of "\<lparr>rect_x = 10, rect_y = 21 / 2, rect_w = 3, rect_h = 7 / 2, rect_dpr = 3 / 2\<rparr>" 15 16 5 5
        0 "cs_step (Mousemove 13 14) (cs_step (Mousedown 0 10 (21 / 2))
             (cs_step START_CROP (initial_content_script (3 / 2))))" 10 "21 / 2" 3 "7 / 2"]
  by (simp add: crop_source_rect_def Math_round_def floor_eq_iff cs_defs)

text \<open>
  Claim C6 as stated fails: a width of 3 display pixels at the device pixel ratio 1.5
  is 4.5 device pixels, which the popup rounds to 5, where flooring gives 4.
\<close>

theorem floor_size_counterexample:
  "crop_source_rect \<lparr>rect_x = 0, rect_y = 0, rect_w = 3, rect_h = 3, rect_dpr = 3 / 2\<rparr>
     = (0, 0, 5, 5) \<and>
   max 1 (Math_floor (3 * (3 / 2))) = 4"
  by (simp add: crop_source_rect_def Math_round_def Math_floor_def floor_eq_iff)

subsection \<open>Degenerate selections\<close>

lemma onMouseUp_degenerate:
  assumes "active c" and "getBoxRect c = (x, y, w, h)" and "w < 2 \<or> h < 2"
  shows "sent (onMouseUp c) = sent c \<and> \<not> overlay (onMouseUp c) \<and> box (onMouseUp c) = None"
proof -
  have "getBoxRect (c\<lparr>active := False\<rparr>) = (x, y, w, h)"
    using assms(2) by (simp add: getBoxRect_def)
  with assms(1,3) show ?thesis
    by (auto simp: onMouseUp_def removeOverlay_def Let_def)
qed

lemma runOcrNow_full_region:
  assumes "hasImage wv" and "drawInfo wv = Some info"
    and "2 \<le> drawW info" and "2 \<le> drawH info"
    and "\<bar>endX wv - startX wv\<bar> < 2 \<or> \<bar>endY wv - startY wv\<bar> < 2"
  shows "\<exists>m. posted (runOcrNow wv) = posted wv @ [m] \<and>
              crop_x (dataUrl m) = offsetX info \<and> crop_y (dataUrl m) = offsetY info \<and>
              crop_w (dataUrl m) = drawW info \<and> crop_h (dataUrl m) = drawH info"
  using assms
  by (auto simp: runOcrNow_def Let_def setBusy_def normalizedRect_def
      selectFullImageRegion_def crop_geometry_def Math_floor_def)

text \<open>
  The content script of the browser extension drops a drag that ends with a rectangle of
  \<open>w < 2\<close> or \<open>h < 2\<close>: the overlay and the box are removed and no message is sent.
\<close>

lemma content_script_drops_degenerate:
  assumes "overlay c" and "active c" and "getBoxRect c = (x, y, w, h)" and "w < 2 \<or> h < 2"
  shows "sent (cs_step Mouseup c) = sent c \<and> \<not> overlay (cs_step Mouseup c) \<and>
         box (cs_step Mouseup c) = None"
  using assms onMouseUp_degenerate [of c x y w h] by simp

text \<open>
  In the webview the end of a drag schedules a recognition whatever the size of the
  rectangle, and \<open>runOcrNow\<close> replaces a degenerate selection by the region of the whole
  image. When the image is drawn at least 2 by 2 pixels large, the region that is
  cropped after a degenerate drag is therefore that of the whole image.
\<close>

lemma degenerate_drag_crops_full_image:
  assumes "hasImage wv" and "isDragging wv" and "drawInfo wv = Some info"
    and "2 \<le> drawW info" and "2 \<le> drawH info"
    and "\<bar>ex - startX wv\<bar> < 2 \<or> \<bar>ey - startY wv\<bar> < 2"
  shows "\<exists>m. posted (advance (t + 450) (handle t (MouseUp ex ey) wv)) = posted wv @ [m] \<and>
           crop_x (dataUrl m) = offsetX info \<and> crop_y (dataUrl m) = offsetY info \<and>
           crop_w (dataUrl m) = drawW info \<and> crop_h (dataUrl m) = drawH info"
proof -
  let ?w = "wv\<lparr>endX := ex, endY := ey, isDragging := False, ocrTimer := None\<rparr>"
  have adv: "advance (t + 450) (handle t (MouseUp ex ey) wv) = runOcrNow ?w"
    using assms(1,2) by (simp add: advance_def scheduleOcr_def)
  have "\<exists>m. posted (runOcrNow ?w) = posted ?w @ [m] \<and>
              crop_x (dataUrl m) = offsetX info \<and> crop_y (dataUrl m) = offsetY info \<and>
              crop_w (dataUrl m) = drawW info \<and> crop_h (dataUrl m) = drawH info"
    using assms by (intro runOcrNow_full_region) simp_all
  then show ?thesis using adv by simp
qed


section \<open>Properties of the orchestration in the webview\<close>

subsection \<open>Completions\<close>

lemma run_append: "run (es @ es') wv = run es' (run es wv)"
  by (induction es arbitrary: wv) auto

text \<open>
  Claim C2, as amended. The webview keeps no generation counter and compares nothing
  when a recognition call completes: whatever events came before an \<open>ocr-result\<close> message
  (newer slider changes, newer selections and newer requests among them), the text, the
  confidence and the duration shown after it are those of that message, and the
  controls are enabled again. The completion that arrives last is the one displayed.
\<close>

theorem completion_always_displayed:
  "output_value (run (es @ [(t, HostMessage (Ocr_result p))]) wv) =
     (case payload_text p of None \<Rightarrow> [] | Some txt \<Rightarrow> txt) \<and>
   confEl (run (es @ [(t, HostMessage (Ocr_result p))]) wv) =
     (case payload_confidence p of None \<Rightarrow> ConfNA | Some c \<Rightarrow> ConfPercent c) \<and>
   durEl (run (es @ [(t, HostMessage (Ocr_result p))]) wv) =
     (case payload_durationMs p of None \<Rightarrow> DurDash | Some d \<Rightarrow> DurMs d) \<and>
   \<not> btnOcr_disabled (run (es @ [(t, HostMessage (Ocr_result p))]) wv)"
  by (simp add: run_append setBusy_def)

text \<open>
  Claim C2 as stated fails. An image is loaded and the first request is posted with the
  threshold 160 when its timeout fires at 450 ms; the threshold is changed to 100 at
  500 ms and the second request is posted at 950 ms. The result of the second request
  arrives first and is shown. The result of the first, superseded request arrives
  after it and replaces the text on display.
\<close>

theorem stale_completion_counterexample:
  "map msg_threshold (posted (run
      [(0, ImageLoaded \<lparr>offsetX = 0, offsetY = 0, drawW = 100, drawH = 50\<rparr>),
       (500, ThrInput (Num 100)),
       (1200, HostMessage (Ocr_result \<lparr>payload_text = Some (js ''NEW''),
                payload_confidence = None, payload_durationMs = Some 250\<rparr>))]
      initial_webview)) = [160, 100] \<and>
   output_value (run
      [(0, ImageLoaded \<lparr>offsetX = 0, offsetY = 0, drawW = 100, drawH = 50\<rparr>),
       (500, ThrInput (Num 100)),
       (1200, HostMessage (Ocr_result \<lparr>payload_text = Some (js ''NEW''),
                payload_confidence = None, payload_durationMs = Some 250\<rparr>))]
      initial_webview) = js ''NEW'' \<and>
   output_value (run
      [(0, ImageLoaded \<lparr>offsetX = 0, offsetY = 0, drawW = 100, drawH = 50\<rparr>),
       (500, ThrInput (Num 100)),
       (1200, HostMessage (Ocr_result \<lparr>payload_text = Some (js ''NEW''),
                payload_confidence = None, payload_durationMs = Some 250\<rparr>)),
       (1300, HostMessage (Ocr_result \<lparr>payload_text = Some (js ''OLD''),
                payload_confidence = None, payload_durationMs = Some 850\<rparr>))]
      initial_webview) = js ''OLD''"
  by (simp add: wv_defs)

subsection \<open>Debounce\<close>

lemma posted_selectFullImageRegion [simp]: "posted (selectFullImageRegion wv) = posted wv"
  by (simp add: selectFullImageRegion_def split: option.splits)

lemma posted_scheduleOcr [simp]: "posted (scheduleOcr now wv) = posted wv"
  by (simp add: scheduleOcr_def)

lemma posted_on_message [simp]: "posted (on_message m wv) = posted wv"
  by (cases m) (simp_all add: setBusy_def)

lemma handle_posted: "e \<noteq> ClickOcr \<Longrightarrow> posted (handle t e wv) = posted wv"
  by (cases e) simp_all

lemma ocrTimer_selectFullImageRegion [simp]: "ocrTimer (selectFullImageRegion wv) = ocrTimer wv"
  by (simp add: selectFullImageRegion_def split: option.splits)

lemma hasImage_selectFullImageRegion [simp]: "hasImage (selectFullImageRegion wv) = hasImage wv"
  by (simp add: selectFullImageRegion_def split: option.splits)

lemma thr_value_selectFullImageRegion [simp]: "thr_value (selectFullImageRegion wv) = thr_value wv"
  by (simp add: selectFullImageRegion_def split: option.splits)

lemma scale_value_selectFullImageRegion [simp]:
  "scale_value (selectFullImageRegion wv) = scale_value wv"
  by (simp add: selectFullImageRegion_def split: option.splits)

lemma ocrTimer_runOcrNow [simp]: "ocrTimer (runOcrNow wv) = ocrTimer wv"
  by (simp add: runOcrNow_def Let_def setBusy_def split: option.splits prod.splits)

lemma ocrTimer_on_message [simp]: "ocrTimer (on_message m wv) = ocrTimer wv"
  by (cases m) (simp_all add: setBusy_def)

lemma handle_timer:
  "ocrTimer (handle t e wv) = (if triggers e wv then Some (t + 450) else ocrTimer wv)"
  by (cases e) (simp_all add: scheduleOcr_def)

lemma advance_not_due:
  "(case ocrTimer wv of None \<Rightarrow> True | Some due \<Rightarrow> t < due) \<Longrightarrow> advance t wv = wv"
  by (simp add: advance_def split: option.splits)

lemma hasImage_runOcrNow [simp]: "hasImage (runOcrNow wv) = hasImage wv"
  by (simp add: runOcrNow_def Let_def setBusy_def split: option.splits prod.splits)

lemma hasImage_on_message [simp]: "hasImage (on_message m wv) = hasImage wv"
  by (cases m) (simp_all add: setBusy_def)

lemma hasImage_handle: "hasImage wv \<or> triggers e wv \<Longrightarrow> hasImage (handle t e wv)"
  by (cases e) (auto simp: scheduleOcr_def)

lemma hasImage_advance: "hasImage wv \<Longrightarrow> hasImage (advance t wv)"
  by (simp add: advance_def split: option.splits)

lemma hasImage_run: "hasImage wv \<Longrightarrow> hasImage (run es wv)"
proof (induction es arbitrary: wv)
  case Nil
  then show ?case by simp
next
  case (Cons a es)
  obtain t e where a: "a = (t, e)" by (cases a)
  from Cons.prems have "hasImage (handle t e (advance t wv))"
    by (simp add: hasImage_handle hasImage_advance)
  then show ?case using Cons.IH a by simp
qed

lemma hasImage_after_trigger: "trigger_times es wv \<noteq> [] \<Longrightarrow> hasImage (run es wv)"
proof (induction es arbitrary: wv)
  case Nil
  then show ?case by simp
next
  case (Cons a es)
  obtain t e where a: "a = (t, e)" by (cases a)
  show ?case
  proof (cases "triggers e (advance t wv)")
    case True
    then have "hasImage (handle t e (advance t wv))" by (simp add: hasImage_handle)
    then show ?thesis using a by (simp add: hasImage_run)
  next
    case False
    with Cons.prems a have "trigger_times es (handle t e (advance t wv)) \<noteq> []" by simp
    then show ?thesis using Cons.IH a by simp
  qed
qed

lemma burst_run:
  assumes "burst es wv" and "list_all (\<lambda>(t, e). e \<noteq> ClickOcr) es"
  shows "posted (run es wv) = posted wv \<and>
         ocrTimer (run es wv) =
           (if trigger_times es wv = [] then ocrTimer wv
            else Some (last (trigger_times es wv) + 450))"
  using assms
proof (induction es arbitrary: wv)
  case Nil
  then show ?case by simp
next
  case (Cons a es)
  obtain t e where a: "a = (t, e)" by (cases a)
  from Cons.prems a have due: "case ocrTimer wv of None \<Rightarrow> True | Some due \<Rightarrow> t < due"
    and b: "burst es (handle t e (advance t wv))"
    and nc: "e \<noteq> ClickOcr" and ncs: "list_all (\<lambda>(t, e). e \<noteq> ClickOcr) es"
    by simp_all
  have adv: "advance t wv = wv" using due by (rule advance_not_due)
  from Cons.IH [OF b ncs] adv
  have ih: "posted (run es (handle t e wv)) = posted (handle t e wv) \<and>
            ocrTimer (run es (handle t e wv)) =
              (if trigger_times es (handle t e wv) = [] then ocrTimer (handle t e wv)
               else Some (last (trigger_times es (handle t e wv)) + 450))"
    by simp
  show ?case using ih a adv nc
    by (simp add: handle_posted handle_timer)
qed

lemma thr_value_runOcrNow [simp]: "thr_value (runOcrNow wv) = thr_value wv"
  by (simp add: runOcrNow_def Let_def setBusy_def split: option.splits prod.splits)

lemma scale_value_runOcrNow [simp]: "scale_value (runOcrNow wv) = scale_value wv"
  by (simp add: runOcrNow_def Let_def setBusy_def split: option.splits prod.splits)

lemma sliders_advance [simp]:
  "thr_value (advance t wv) = thr_value wv" "scale_value (advance t wv) = scale_value wv"
  by (simp_all add: advance_def split: option.splits)

lemma sliders_on_message [simp]:
  "thr_value (on_message m wv) = thr_value wv" "scale_value (on_message m wv) = scale_value wv"
  by (cases m; simp add: setBusy_def)+

lemma thr_value_run: "thr_value (run es wv) = last_thr es (thr_value wv)"
proof (induction es arbitrary: wv)
  case Nil
  then show ?case by simp
next
  case (Cons a es)
  obtain t e where a: "a = (t, e)" by (cases a)
  show ?case unfolding a using Cons.IH [of "handle t e (advance t wv)"]
    by (cases e) (simp_all add: scheduleOcr_def)
qed

lemma scale_value_run: "scale_value (run es wv) = last_scale es (scale_value wv)"
proof (induction es arbitrary: wv)
  case Nil
  then show ?case by simp
next
  case (Cons a es)
  obtain t e where a: "a = (t, e)" by (cases a)
  show ?case unfolding a using Cons.IH [of "handle t e (advance t wv)"]
    by (cases e) (simp_all add: scheduleOcr_def)
qed

lemma runOcrNow_posts:
  "hasImage wv \<Longrightarrow>
   \<exists>m. posted (runOcrNow wv) = posted wv @ [m] \<and>
       msg_threshold m = getThresholdVal wv \<and> msg_scale m = getScaleVal wv"
  by (simp add: runOcrNow_def Let_def setBusy_def getThresholdVal_def getScaleVal_def
      split: option.splits prod.splits)

text \<open>
  Claim C5. Take any run of events of the webview, manual clicks on the run button
  apart, that starts with no timeout pending, in which every event comes before the
  timeout pending at its time is due (less than 450 ms after the trigger before it),
  and which holds at least one triggering event. During the run no request is posted.
  After it, the timeout is due 450 ms after the last trigger; once that time is reached,
  exactly one request has been posted, with the threshold and the scale that the sliders
  hold then, which are the values of the last slider events of the run; and no timeout
  is left pending.
\<close>

theorem debounce_single_call:
  assumes "ocrTimer wv = None"
    and "burst es wv"
    and "list_all (\<lambda>(t, e). e \<noteq> ClickOcr) es"
    and "trigger_times es wv \<noteq> []"
    and "last (trigger_times es wv) + 450 \<le> t"
  shows "posted (run es wv) = posted wv \<and>
         ocrTimer (run es wv) = Some (last (trigger_times es wv) + 450) \<and>
         (\<exists>m. posted (advance t (run es wv)) = posted wv @ [m] \<and>
              msg_threshold m = getThresholdVal (run es wv) \<and>
              msg_scale m = getScaleVal (run es wv)) \<and>
         thr_value (run es wv) = last_thr es (thr_value wv) \<and>
         scale_value (run es wv) = last_scale es (scale_value wv) \<and>
         ocrTimer (advance t (run es wv)) = None"
proof -
  let ?w = "run es wv"
  from burst_run [OF assms(2,3)] assms(4)
  have p: "posted ?w = posted wv"
    and tm: "ocrTimer ?w = Some (last (trigger_times es wv) + 450)" by simp_all
  have img: "hasImage ?w" using assms(4) by (rule hasImage_after_trigger)
  have adv: "advance t ?w = runOcrNow (?w\<lparr>ocrTimer := None\<rparr>)"
    using tm assms(5) by (simp add: advance_def)
  from img have "hasImage (?w\<lparr>ocrTimer := None\<rparr>)" by simp
  from runOcrNow_posts [OF this] obtain m
    where m: "posted (runOcrNow (?w\<lparr>ocrTimer := None\<rparr>)) = posted (?w\<lparr>ocrTimer := None\<rparr>) @ [m]"
      "msg_threshold m = getThresholdVal (?w\<lparr>ocrTimer := None\<rparr>)"
      "msg_scale m = getScaleVal (?w\<lparr>ocrTimer := None\<rparr>)" by blast
  have "posted (advance t ?w) = posted wv @ [m] \<and>
        msg_threshold m = getThresholdVal ?w \<and> msg_scale m = getScaleVal ?w"
    using m p adv by (simp add: getThresholdVal_def getScaleVal_def)
  moreover have "ocrTimer (advance t ?w) = None" using adv by simp
  ultimately show ?thesis using p tm thr_value_run scale_value_run by blast
qed

text \<open>
  The theorem at a run of four triggers within 300 ms of each other (an image is
  loaded, the threshold is set to 100, a region is dragged, the scale is set to 3): one
  request is posted, for the dragged region, with the threshold 100 and the scale 3.
\<close>

theorem debounce_single_call_witness:
  "ocrTimer initial_webview = None \<and>
   burst [(0, ImageLoaded \<lparr>offsetX = 0, offsetY = 0, drawW = 100, drawH = 50\<rparr>),
          (100, ThrInput (Num 100)), (200, MouseDown 10 10), (250, MouseMove 40 30),
          (300, MouseUp 60 40), (600, ScaleInput (Num 3))]
      initial_webview \<and>
   trigger_times [(0, ImageLoaded \<lparr>offsetX = 0, offsetY = 0, drawW = 100, drawH = 50\<rparr>),
          (100, ThrInput (Num 100)), (200, MouseDown 10 10), (250, MouseMove 40 30),
          (300, MouseUp 60 40), (600, ScaleInput (Num 3))]
      initial_webview = [0, 100, 300, 600] \<and>
   posted (advance 1050 (run
         [(0, ImageLoaded \<lparr>offsetX = 0, offsetY = 0, drawW = 100, drawH = 50\<rparr>),
          (100, ThrInput (Num 100)), (200, MouseDown 10 10), (250, MouseMove 40 30),
          (300, MouseUp 60 40), (600, ScaleInput (Num 3))]
      initial_webview)) =
     [\<lparr>dataUrl = \<lparr>crop_x = 10, crop_y = 10, crop_w = 50, crop_h = 30,
                   scaledW = 150, scaledH = 90\<rparr>, msg_threshold = 100, msg_scale = 3\<rparr>]"
  using debounce_single_call
    [of initial_webview
        "[(0, ImageLoaded \<lparr>offsetX = 0, offsetY = 0, drawW = 100, drawH = 50\<rparr>),
          (100, ThrInput (Num 100)), (200, MouseDown 10 10), (250, MouseMove 40 30),
          (300, MouseUp 60 40), (600, ScaleInput (Num 3))]"
        1050]
  by (simp add: wv_defs)

end
